theory Spec2Isabelle
  imports Main "HOL-Library.Multiset" "HOL-Library.Word"
begin

section \<open>The environment of the rotating writer\<close>

text \<open>
  The log rotator of \<^verbatim>\<open>logrotate.go\<close> talks to the operating system only: it opens,
  stats, writes, closes, renames and removes files, lists a directory with a glob pattern
  and reads the clock. The file system is modelled up to what the rotator observes of it:
  the size and the modification time of every path. Times and durations are nanoseconds
  (Go's \<^verbatim>\<open>time.Duration\<close>), times counted from Go's zero time. Go's \<^verbatim>\<open>int\<close> and
  \<^verbatim>\<open>int64\<close> are unbounded integers here: no property below is about overflow.
\<close>

type_synonym path = string

record fileinfo =
  fsize :: int
  modTime :: int

text \<open>The error values of the \<^verbatim>\<open>os\<close> and \<^verbatim>\<open>filepath\<close> packages the rotator can meet.\<close>

datatype errno = ErrClosed | ErrInvalid | ErrNotExist | ErrBadPattern | ErrNoSpace | ErrIO

text \<open>
  A Go error: a sentinel, an \<^verbatim>\<open>*os.PathError\<close> (operation, path, cause), the result
  of \<^verbatim>\<open>fmt.Errorf\<close> without a wrapped error, and \<^verbatim>\<open>fmt.Errorf("msg: %w", err)\<close>.
\<close>

datatype error =
    Sentinel errno
  | PathError string path errno
  | Errorf string
  | ErrorfW string error

text \<open>\<^verbatim>\<open>errors.Is\<close>: the chain of wrapped errors is searched for the target.\<close>

fun errors_Is :: "error \<Rightarrow> errno \<Rightarrow> bool" where
  "errors_Is (Sentinel c) t = (c = t)"
| "errors_Is (PathError oper p c) t = (c = t)"
| "errors_Is (Errorf m) t = False"
| "errors_Is (ErrorfW m e) t = errors_Is e t"

text \<open>
  Every call into the operating system is recorded, in order, in the trace of the world;
  \<open>EvRotate\<close> marks the start of a rotation cycle (an entry into \<^verbatim>\<open>rotate\<close>). The same
  datatype names the calls that the environment makes fail (\<open>faults\<close>): a permission
  problem, an I/O error.
\<close>

datatype event =
    OpMkdirAll path
  | OpOpenFile path
  | OpFstat path
  | OpWrite path
  | OpClose path
  | OpRename path path
  | OpOpen path
  | OpCreate path
  | OpCopy path path
  | OpRemove path
  | OpStat path
  | OpGlob string
  | EvRotate

text \<open>
  The world: the files (an association list from path to size and modification time, the
  first entry of a path counts), the clock, the calls that fail, the free space of the
  device (\<open>None\<close>: unlimited; a write that does not fit is cut short), and the trace.
\<close>

record world =
  files :: "(path \<times> fileinfo) list"
  now :: int
  faults :: "event set"
  space :: "nat option"
  trace :: "event list"

definition logEv :: "event \<Rightarrow> world \<Rightarrow> world" where
  "logEv e w = w\<lparr>trace := trace w @ [e]\<rparr>"

definition exists_path :: "world \<Rightarrow> path \<Rightarrow> bool" where
  "exists_path w p = (map_of (files w) p \<noteq> None)"

definition delete_path :: "path \<Rightarrow> (path \<times> fileinfo) list \<Rightarrow> (path \<times> fileinfo) list" where
  "delete_path p fs = filter (\<lambda>e. fst e \<noteq> p) fs"

definition put_path :: "path \<Rightarrow> fileinfo \<Rightarrow> (path \<times> fileinfo) list \<Rightarrow> (path \<times> fileinfo) list" where
  "put_path p fi fs = (p, fi) # delete_path p fs"

text \<open>
  An \<^verbatim>\<open>*os.File\<close>: the name it was opened with and whether it has been closed. The
  rotator holds the only reference to its handle, so the handle's state is kept where the
  reference is.
\<close>

record os_file =
  hname :: path
  hclosed :: bool

subsection \<open>Library functions taken as parameters\<close>

text \<open>
  Functions of Go's standard library whose results the rotator only passes on:
  \<^verbatim>\<open>sort.Slice\<close> with the comparison by modification time (unstable: the order of
  ties is whatever the library does), the pattern matcher of \<^verbatim>\<open>filepath.Glob\<close>
  (whether a pattern is malformed, and which paths it matches), \<^verbatim>\<open>filepath.Dir\<close>,
  \<^verbatim>\<open>filepath.Base\<close>, \<^verbatim>\<open>filepath.Join\<close>, the calendar fields of a time in the local
  zone, and the size of the gzip stream of a file of a given size.
\<close>

record civil =
  cYear :: int
  cMonth :: int
  cDay :: int
  cHour :: int
  cMinute :: int
  cSecond :: int

record oslib =
  sort_Slice :: "(path \<times> int) list \<Rightarrow> (path \<times> int) list"
  badPattern :: "string \<Rightarrow> bool"
  pathMatch :: "string \<Rightarrow> path \<Rightarrow> bool"
  filepath_Dir :: "path \<Rightarrow> path"
  filepath_Base :: "path \<Rightarrow> path"
  filepath_Join :: "path \<Rightarrow> path \<Rightarrow> path"
  civilTime :: "int \<Rightarrow> civil"
  gzipSize :: "int \<Rightarrow> int"

subsection \<open>Strings and times\<close>

text \<open>
  \<^verbatim>\<open>filepath.Ext\<close>: scan from the end of the path, stop at a separator, return the
  suffix that starts at the first dot met. The scan runs over the reversed path; the
  second argument is the part already passed.
\<close>

fun ext_scan :: "string \<Rightarrow> string \<Rightarrow> string" where
  "ext_scan [] acc = []"
| "ext_scan (c # rs) acc =
     (if c = CHR ''/'' then []
      else if c = CHR ''.'' then c # acc
      else ext_scan rs (c # acc))"

definition filepath_Ext :: "path \<Rightarrow> string" where
  "filepath_Ext p = ext_scan (rev p) []"

definition strings_HasSuffix :: "string \<Rightarrow> string \<Rightarrow> bool" where
  "strings_HasSuffix s suffix =
     (length suffix \<le> length s \<and> drop (length s - length suffix) s = suffix)"

definition strings_TrimSuffix :: "string \<Rightarrow> string \<Rightarrow> string" where
  "strings_TrimSuffix s suffix =
     (if strings_HasSuffix s suffix then take (length s - length suffix) s else s)"

text \<open>
  \<^verbatim>\<open>time.Format\<close> with the layout \<^verbatim>\<open>2006-01-02-150405\<close>. Go's \<^verbatim>\<open>appendInt\<close> writes a
  sign for a negative number and pads with zeros up to the width.
\<close>

definition digit_char :: "nat \<Rightarrow> char" where
  "digit_char d = ''0123456789'' ! d"

fun utod :: "nat \<Rightarrow> string" where
  "utod n = (if n < 10 then [digit_char n] else utod (n div 10) @ [digit_char (n mod 10)])"

declare utod.simps [simp del]

definition appendInt :: "int \<Rightarrow> nat \<Rightarrow> string" where
  "appendInt x width =
     (let ds = utod (nat \<bar>x\<bar>)
      in (if x < 0 then ''-'' else []) @ replicate (width - length ds) CHR ''0'' @ ds)"

definition time_Format :: "civil \<Rightarrow> string" where
  "time_Format c =
     appendInt (cYear c) 4 @ ''-'' @ appendInt (cMonth c) 2 @ ''-'' @ appendInt (cDay c) 2
       @ ''-'' @ appendInt (cHour c) 2 @ appendInt (cMinute c) 2 @ appendInt (cSecond c) 2"

definition hour_ns :: int where
  "hour_ns = 3600 * 1000000000"

text \<open>\<^verbatim>\<open>Time.Truncate\<close>: round down to a multiple of \<open>d\<close> since the zero time.\<close>

definition time_Truncate :: "int \<Rightarrow> int \<Rightarrow> int" where
  "time_Truncate t d = (if d \<le> 0 then t else t - t mod d)"

subsection \<open>Operating system calls\<close>

text \<open>
  \<^verbatim>\<open>os.OpenFile(path, O_CREATE|O_WRONLY|O_APPEND, 0644)\<close>: creates the file when it is
  absent.
\<close>

definition os_OpenFile :: "path \<Rightarrow> world \<Rightarrow> (error + os_file) \<times> world" where
  "os_OpenFile p w =
     (let w1 = logEv (OpOpenFile p) w
      in if OpOpenFile p \<in> faults w then (Inl (PathError ''open'' p ErrIO), w1)
         else if exists_path w p then (Inr \<lparr>hname = p, hclosed = False\<rparr>, w1)
         else (Inr \<lparr>hname = p, hclosed = False\<rparr>,
               w1\<lparr>files := put_path p \<lparr>fsize = 0, modTime = now w\<rparr> (files w)\<rparr>))"

definition file_Stat :: "os_file \<Rightarrow> world \<Rightarrow> (error + fileinfo) \<times> world" where
  "file_Stat f w =
     (let w1 = logEv (OpFstat (hname f)) w
      in if hclosed f then (Inl (PathError ''stat'' (hname f) ErrClosed), w1)
         else if OpFstat (hname f) \<in> faults w then (Inl (PathError ''stat'' (hname f) ErrIO), w1)
         else (case map_of (files w) (hname f) of
                 None \<Rightarrow> (Inl (PathError ''stat'' (hname f) ErrNotExist), w1)
               | Some fi \<Rightarrow> (Inr fi, w1)))"

text \<open>
  \<^verbatim>\<open>(*os.File).Close\<close>: a handle that is already closed gives \<^verbatim>\<open>os.ErrClosed\<close>; any
  other call closes the handle, also when the system call reports an error.
\<close>

definition file_Close :: "os_file \<Rightarrow> world \<Rightarrow> error option \<times> os_file \<times> world" where
  "file_Close f w =
     (let w1 = logEv (OpClose (hname f)) w
      in if hclosed f then (Some (PathError ''close'' (hname f) ErrClosed), f, w1)
         else if OpClose (hname f) \<in> faults w
           then (Some (PathError ''close'' (hname f) ErrIO), f\<lparr>hclosed := True\<rparr>, w1)
         else (None, f\<lparr>hclosed := True\<rparr>, w1))"

text \<open>
  \<^verbatim>\<open>(*os.File).Write\<close>: on a nil receiver \<^verbatim>\<open>os.ErrInvalid\<close>, on a closed handle
  \<^verbatim>\<open>os.ErrClosed\<close>, both with no byte written. Otherwise as many bytes as the device
  has room for are appended; fewer than asked for comes with an error.
\<close>

definition append_bytes :: "path \<Rightarrow> int \<Rightarrow> int \<Rightarrow> (path \<times> fileinfo) list \<Rightarrow> (path \<times> fileinfo) list" where
  "append_bytes p n t fs =
     (case map_of fs p of
        None \<Rightarrow> fs
      | Some fi \<Rightarrow> put_path p \<lparr>fsize = fsize fi + n, modTime = t\<rparr> fs)"

definition file_Write :: "os_file option \<Rightarrow> 8 word list \<Rightarrow> world \<Rightarrow> nat \<times> error option \<times> world" where
  "file_Write fo p w =
     (case fo of
        None \<Rightarrow> (0, Some (Sentinel ErrInvalid), w)
      | Some f \<Rightarrow>
          (let w1 = logEv (OpWrite (hname f)) w
           in if hclosed f then (0, Some (PathError ''write'' (hname f) ErrClosed), w1)
              else if OpWrite (hname f) \<in> faults w
                then (0, Some (PathError ''write'' (hname f) ErrIO), w1)
              else (let n = (case space w of None \<Rightarrow> length p | Some k \<Rightarrow> min k (length p));
                        w2 = w1\<lparr>files := (if n = 0 then files w
                                           else append_bytes (hname f) (int n) (now w) (files w)),
                                 space := map_option (\<lambda>k. k - n) (space w)\<rparr>
                    in if n < length p
                         then (n, Some (PathError ''write'' (hname f) ErrNoSpace), w2)
                       else (n, None, w2))))"

definition os_Rename :: "path \<Rightarrow> path \<Rightarrow> world \<Rightarrow> error option \<times> world" where
  "os_Rename old new w =
     (let w1 = logEv (OpRename old new) w
      in if OpRename old new \<in> faults w then (Some (PathError ''rename'' old ErrIO), w1)
         else (case map_of (files w) old of
                 None \<Rightarrow> (Some (PathError ''rename'' old ErrNotExist), w1)
               | Some fi \<Rightarrow>
                   (None, w1\<lparr>files := (if new = old then files w
                                        else put_path new fi (delete_path old (files w)))\<rparr>)))"

definition os_Open :: "path \<Rightarrow> world \<Rightarrow> (error + fileinfo) \<times> world" where
  "os_Open p w =
     (let w1 = logEv (OpOpen p) w
      in if OpOpen p \<in> faults w then (Inl (PathError ''open'' p ErrIO), w1)
         else (case map_of (files w) p of
                 None \<Rightarrow> (Inl (PathError ''open'' p ErrNotExist), w1)
               | Some fi \<Rightarrow> (Inr fi, w1)))"

text \<open>\<^verbatim>\<open>os.Create\<close>: creates the file or truncates it.\<close>

definition os_Create :: "path \<Rightarrow> world \<Rightarrow> error option \<times> world" where
  "os_Create p w =
     (let w1 = logEv (OpCreate p) w
      in if OpCreate p \<in> faults w then (Some (PathError ''open'' p ErrIO), w1)
         else (None, w1\<lparr>files := put_path p \<lparr>fsize = 0, modTime = now w\<rparr> (files w)\<rparr>))"

text \<open>
  \<^verbatim>\<open>io.Copy\<close> of the source through the gzip writer into the compressed file, together
  with the deferred close of the gzip writer.
\<close>

definition io_Copy :: "oslib \<Rightarrow> path \<Rightarrow> fileinfo \<Rightarrow> path \<Rightarrow> world \<Rightarrow> error option \<times> world" where
  "io_Copy lib dst src_info src w =
     (let w1 = logEv (OpCopy src dst) w
      in if OpCopy src dst \<in> faults w then (Some (PathError ''read'' src ErrIO), w1)
         else (None, w1\<lparr>files := put_path dst
                  \<lparr>fsize = gzipSize lib (fsize src_info), modTime = now w\<rparr> (files w)\<rparr>))"

definition os_Remove :: "path \<Rightarrow> world \<Rightarrow> error option \<times> world" where
  "os_Remove p w =
     (let w1 = logEv (OpRemove p) w
      in if OpRemove p \<in> faults w then (Some (PathError ''remove'' p ErrIO), w1)
         else if \<not> exists_path w p then (Some (PathError ''remove'' p ErrNotExist), w1)
         else (None, w1\<lparr>files := delete_path p (files w)\<rparr>))"

definition os_Stat :: "path \<Rightarrow> world \<Rightarrow> (error + fileinfo) \<times> world" where
  "os_Stat p w =
     (let w1 = logEv (OpStat p) w
      in if OpStat p \<in> faults w then (Inl (PathError ''stat'' p ErrIO), w1)
         else (case map_of (files w) p of
                 None \<Rightarrow> (Inl (PathError ''stat'' p ErrNotExist), w1)
               | Some fi \<Rightarrow> (Inr fi, w1)))"

definition os_MkdirAll :: "path \<Rightarrow> world \<Rightarrow> error option \<times> world" where
  "os_MkdirAll d w =
     (let w1 = logEv (OpMkdirAll d) w
      in if OpMkdirAll d \<in> faults w then (Some (PathError ''mkdir'' d ErrIO), w1)
         else (None, w1))"

text \<open>
  \<^verbatim>\<open>filepath.Glob\<close>: the only error is a malformed pattern; otherwise the existing
  paths that match, each once.
\<close>

definition glob_matches :: "oslib \<Rightarrow> string \<Rightarrow> (path \<times> fileinfo) list \<Rightarrow> path list" where
  "glob_matches lib pat fs = remdups (filter (pathMatch lib pat) (map fst fs))"

definition filepath_Glob :: "oslib \<Rightarrow> string \<Rightarrow> world \<Rightarrow> (error + path list) \<times> world" where
  "filepath_Glob lib pat w =
     (let w1 = logEv (OpGlob pat) w
      in if badPattern lib pat then (Inl (Sentinel ErrBadPattern), w1)
         else (Inr (glob_matches lib pat (files w)), w1))"

section \<open>The log rotator\<close>

record LogRotator =
  filePath :: string
  maxSize :: int
  maxAge :: int
  maxBackups :: int
  compress :: bool
  rotateDaily :: bool
  rotateTime :: int
  fileHandle :: "os_file option"
  fileSize :: int

record LogRotatorConfig =
  FilePath :: string
  MaxSize :: int
  MaxAge :: int
  MaxBackups :: int
  Compress :: bool
  RotateDaily :: bool

text \<open>\<^verbatim>\<open>openFile\<close>: open or create the log file, then take its size from the file system.\<close>

definition openFile :: "LogRotator \<Rightarrow> world \<Rightarrow> error option \<times> LogRotator \<times> world" where
  "openFile lr w =
     (case os_OpenFile (filePath lr) w of
        (Inl e, w1) \<Rightarrow> (Some (ErrorfW ''failed to open log file'' e), lr, w1)
      | (Inr f, w1) \<Rightarrow>
          (case file_Stat f w1 of
             (Inl e, w2) \<Rightarrow>
               (case file_Close f w2 of
                  (_, _, w3) \<Rightarrow> (Some (ErrorfW ''failed to get file stats'' e), lr, w3))
           | (Inr st, w2) \<Rightarrow> (None, lr\<lparr>fileHandle := Some f, fileSize := fsize st\<rparr>, w2)))"

text \<open>\<^verbatim>\<open>generateRotatedName\<close>: \<^verbatim>\<open>fmt.Sprintf("%s-%s%s", base, timestamp, ext)\<close>.\<close>

definition generateRotatedName :: "oslib \<Rightarrow> LogRotator \<Rightarrow> world \<Rightarrow> string" where
  "generateRotatedName lib lr w =
     (let ext = filepath_Ext (filePath lr);
          base = strings_TrimSuffix (filePath lr) ext;
          timestamp = time_Format (civilTime lib (now w))
      in base @ ''-'' @ timestamp @ ext)"

text \<open>\<^verbatim>\<open>compressFile\<close>: gzip the file into \<^verbatim>\<open>filename + ".gz"\<close>, then remove it.\<close>

definition compressFile :: "oslib \<Rightarrow> string \<Rightarrow> world \<Rightarrow> error option \<times> world" where
  "compressFile lib filename w =
     (if strings_HasSuffix filename ''.gz'' then (None, w)
      else (case os_Open filename w of
              (Inl e, w1) \<Rightarrow> (Some e, w1)
            | (Inr src, w1) \<Rightarrow>
                (case os_Create (filename @ ''.gz'') w1 of
                   (Some e, w2) \<Rightarrow> (Some e, w2)
                 | (None, w2) \<Rightarrow>
                     (case io_Copy lib (filename @ ''.gz'') src filename w2 of
                        (Some e, w3) \<Rightarrow> (Some e, w3)
                      | (None, w3) \<Rightarrow> os_Remove filename w3))))"

text \<open>
  \<^verbatim>\<open>cleanup\<close>. The first loop stats every match and skips the ones it cannot stat; the
  second removes every file older than the cutoff; the third removes the first
  \<^verbatim>\<open>len(files) - maxBackups\<close> files of the sorted slice. The result of \<^verbatim>\<open>os.Remove\<close>
  is dropped in both.
\<close>

fun statAll :: "path list \<Rightarrow> world \<Rightarrow> (path \<times> int) list \<times> world" where
  "statAll [] w = ([], w)"
| "statAll (m # ms) w =
     (case os_Stat m w of
        (Inl e, w1) \<Rightarrow> statAll ms w1
      | (Inr st, w1) \<Rightarrow> (case statAll ms w1 of (fs, w2) \<Rightarrow> ((m, modTime st) # fs, w2)))"

fun removeOld :: "int \<Rightarrow> (path \<times> int) list \<Rightarrow> world \<Rightarrow> world" where
  "removeOld cutoff [] w = w"
| "removeOld cutoff (f # fs) w =
     (if snd f < cutoff then removeOld cutoff fs (snd (os_Remove (fst f) w))
      else removeOld cutoff fs w)"

function removeExcess :: "nat \<Rightarrow> int \<Rightarrow> (path \<times> int) list \<Rightarrow> world \<Rightarrow> world" where
  "removeExcess i toRemove fs w =
     (if int i < toRemove \<and> i < length fs
      then removeExcess (i + 1) toRemove fs (snd (os_Remove (fst (fs ! i)) w))
      else w)"
  by pat_completeness auto
termination
  by (relation "measure (\<lambda>(i, toRemove, fs, w). length fs - i)") auto

declare removeExcess.simps [simp del]

definition cleanupPattern :: "oslib \<Rightarrow> LogRotator \<Rightarrow> string" where
  "cleanupPattern lib lr =
     (let dir = filepath_Dir lib (filePath lr);
          base = filepath_Base lib (filePath lr);
          ext = filepath_Ext base;
          baseWithoutExt = strings_TrimSuffix base ext
      in filepath_Join lib dir (baseWithoutExt @ ''-*'' @ ext @ ''*''))"

definition cleanup :: "oslib \<Rightarrow> LogRotator \<Rightarrow> world \<Rightarrow> error option \<times> world" where
  "cleanup lib lr w =
     (case filepath_Glob lib (cleanupPattern lib lr) w of
        (Inl e, w1) \<Rightarrow> (Some e, w1)
      | (Inr matches, w1) \<Rightarrow>
          (case statAll matches w1 of
             (files0, w2) \<Rightarrow>
               (let files1 = sort_Slice lib files0;
                    cutoff = now w2 - maxAge lr;
                    w3 = removeOld cutoff files1 w2;
                    w4 = (if int (length files1) > maxBackups lr
                          then removeExcess 0 (int (length files1) - maxBackups lr) files1 w3
                          else w3)
                in (None, w4))))"

text \<open>
  \<^verbatim>\<open>rotate\<close>: close, rename, compress, clean up, reopen; the first error ends the cycle.
  The handle is never reset: after the close the rotator still refers to the closed handle.
\<close>

definition rotate :: "oslib \<Rightarrow> LogRotator \<Rightarrow> world \<Rightarrow> error option \<times> LogRotator \<times> world" where
  "rotate lib lr w0 =
     (let w = logEv EvRotate w0
      in case fileHandle lr of
           None \<Rightarrow> openFile lr w
         | Some f \<Rightarrow>
             (case file_Close f w of
                (Some e, f1, w1) \<Rightarrow>
                  (Some (ErrorfW ''failed to close log file'' e), lr\<lparr>fileHandle := Some f1\<rparr>, w1)
              | (None, f1, w1) \<Rightarrow>
                  (let lr1 = lr\<lparr>fileHandle := Some f1\<rparr>;
                       rotatedName = generateRotatedName lib lr1 w1
                   in if rotatedName = [] then (Some (Errorf ''failed to generate rotated filename''), lr1, w1)
                      else (case os_Rename (filePath lr1) rotatedName w1 of
                              (Some e, w2) \<Rightarrow> (Some (ErrorfW ''failed to rename log file'' e), lr1, w2)
                            | (None, w2) \<Rightarrow>
                                (case (if compress lr1 then compressFile lib rotatedName w2 else (None, w2)) of
                                   (Some e, w3) \<Rightarrow> (Some (ErrorfW ''failed to compress log file'' e), lr1, w3)
                                 | (None, w3) \<Rightarrow>
                                     (case cleanup lib lr1 w3 of
                                        (Some e, w4) \<Rightarrow> (Some (ErrorfW ''failed to cleanup old files'' e), lr1, w4)
                                      | (None, w4) \<Rightarrow> openFile lr1 w4))))))"

text \<open>\<^verbatim>\<open>checkRotation\<close>: the daily check first, then the size check.\<close>

definition checkRotation :: "oslib \<Rightarrow> LogRotator \<Rightarrow> world \<Rightarrow> error option \<times> LogRotator \<times> world" where
  "checkRotation lib lr w =
     (let currentDay = time_Truncate (now w) (24 * hour_ns)
      in if rotateDaily lr \<and> currentDay > rotateTime lr
         then (case rotate lib lr w of
                 (Some e, lr1, w1) \<Rightarrow> (Some e, lr1, w1)
               | (None, lr1, w1) \<Rightarrow> (None, lr1\<lparr>rotateTime := currentDay\<rparr>, w1))
         else if fileSize lr \<ge> maxSize lr then rotate lib lr w
         else (None, lr, w))"

definition Write :: "oslib \<Rightarrow> LogRotator \<Rightarrow> 8 word list \<Rightarrow> world \<Rightarrow> nat \<times> error option \<times> LogRotator \<times> world" where
  "Write lib lr p w =
     (case checkRotation lib lr w of
        (Some e, lr1, w1) \<Rightarrow> (0, Some e, lr1, w1)
      | (None, lr1, w1) \<Rightarrow>
          (case file_Write (fileHandle lr1) p w1 of
             (n, Some e, w2) \<Rightarrow> (n, Some e, lr1, w2)
           | (n, None, w2) \<Rightarrow> (n, None, lr1\<lparr>fileSize := fileSize lr1 + int n\<rparr>, w2)))"

definition Close :: "LogRotator \<Rightarrow> world \<Rightarrow> error option \<times> LogRotator \<times> world" where
  "Close lr w =
     (case fileHandle lr of
        Some f \<Rightarrow> (case file_Close f w of (r, f1, w1) \<Rightarrow> (r, lr\<lparr>fileHandle := Some f1\<rparr>, w1))
      | None \<Rightarrow> (None, lr, w))"

definition Rotate :: "oslib \<Rightarrow> LogRotator \<Rightarrow> world \<Rightarrow> error option \<times> LogRotator \<times> world" where
  "Rotate lib lr w = rotate lib lr w"

definition NewLogRotator :: "oslib \<Rightarrow> LogRotatorConfig \<Rightarrow> world \<Rightarrow> (error + LogRotator) \<times> world" where
  "NewLogRotator lib config w =
     (if FilePath config = [] then (Inl (Errorf ''file path is required''), w)
      else (let config1 = (if MaxSize config = 0 then config\<lparr>MaxSize := 100 * 1024 * 1024\<rparr> else config);
                config2 = (if MaxAge config1 = 0 then config1\<lparr>MaxAge := 7 * 24 * hour_ns\<rparr> else config1);
                config3 = (if MaxBackups config2 = 0 then config2\<lparr>MaxBackups := 5\<rparr> else config2);
                lr = \<lparr>filePath = FilePath config3, maxSize = MaxSize config3, maxAge = MaxAge config3,
                      maxBackups = MaxBackups config3, compress = Compress config3,
                      rotateDaily = RotateDaily config3,
                      rotateTime = time_Truncate (now w) (24 * hour_ns),
                      fileHandle = None, fileSize = 0\<rparr>;
                dir = filepath_Dir lib (FilePath config3)
            in case os_MkdirAll dir w of
                 (Some e, w1) \<Rightarrow> (Inl (ErrorfW ''failed to create log directory'' e), w1)
               | (None, w1) \<Rightarrow>
                   (case openFile lr w1 of
                      (Some e, lr1, w2) \<Rightarrow> (Inl e, w2)
                    | (None, lr1, w2) \<Rightarrow> (Inr lr1, w2))))"

text \<open>\<^verbatim>\<open>GetStats\<close>: the map of statistics.\<close>

datatype statval = VString string | VInt int | VBool bool

definition GetStats :: "LogRotator \<Rightarrow> (string \<rightharpoonup> statval)" where
  "GetStats lr =
     (let stats = [''file_path'' \<mapsto> VString (filePath lr),
                   ''file_size'' \<mapsto> VInt (fileSize lr),
                   ''max_size'' \<mapsto> VInt (maxSize lr),
                   ''max_age'' \<mapsto> VInt (maxAge lr),
                   ''max_backups'' \<mapsto> VInt (maxBackups lr),
                   ''compress'' \<mapsto> VBool (compress lr),
                   ''rotate_daily'' \<mapsto> VBool (rotateDaily lr),
                   ''rotate_time'' \<mapsto> VInt (rotateTime lr)]
      in if fileHandle lr \<noteq> None then stats(''file_open'' \<mapsto> VBool True)
         else stats(''file_open'' \<mapsto> VBool False))"

text \<open>The writer is open when it holds a handle that has not been closed.\<close>

definition isOpen :: "LogRotator \<Rightarrow> bool" where
  "isOpen lr = (case fileHandle lr of None \<Rightarrow> False | Some f \<Rightarrow> \<not> hclosed f)"

section \<open>Observations on the world\<close>

text \<open>
  The number of rotation cycles started so far, and two relations between an earlier and
  a later world: the later one continues the trace of the earlier one without starting a
  rotation cycle (\<open>quiet\<close>), and moreover without opening the log file (\<open>calm\<close>).
\<close>


definition rotations :: "world \<Rightarrow> nat" where
  "rotations w = count_list (trace w) EvRotate"

definition quiet :: "world \<Rightarrow> world \<Rightarrow> bool" where
  "quiet w w' = (\<exists>evs. trace w' = trace w @ evs \<and> EvRotate \<notin> set evs)"


definition calm :: "world \<Rightarrow> world \<Rightarrow> bool" where
  "calm w w' = (\<exists>evs. trace w' = trace w @ evs \<and> EvRotate \<notin> set evs
                    \<and> (\<forall>p. OpOpenFile p \<notin> set evs))"

text \<open>
  The shape \<^verbatim>\<open>YYYY-MM-DD-HHMMSS\<close> of a time stamp: seventeen characters, digits except
  for the three dashes.
\<close>

definition isDigit :: "char \<Rightarrow> bool" where
  "isDigit c = (c \<in> set ''0123456789'')"

definition stampForm :: "string \<Rightarrow> bool" where
  "stampForm s =
     (length s = 17 \<and> list_all isDigit (take 4 s) \<and> s ! 4 = CHR ''-''
      \<and> list_all isDigit (take 2 (drop 5 s)) \<and> s ! 7 = CHR ''-''
      \<and> list_all isDigit (take 2 (drop 8 s)) \<and> s ! 10 = CHR ''-''
      \<and> list_all isDigit (drop 11 s))"

text \<open>Calendar fields as a clock gives them, with a year of at most four digits.\<close>

definition validCivil :: "civil \<Rightarrow> bool" where
  "validCivil c =
     (0 \<le> cYear c \<and> cYear c \<le> 9999 \<and> 1 \<le> cMonth c \<and> cMonth c \<le> 12
      \<and> 1 \<le> cDay c \<and> cDay c \<le> 31 \<and> 0 \<le> cHour c \<and> cHour c \<le> 23
      \<and> 0 \<le> cMinute c \<and> cMinute c \<le> 59 \<and> 0 \<le> cSecond c \<and> cSecond c \<le> 59)"

text \<open>
  The rotated files of a writer, as the cleanup lists them: the existing paths that match
  the pattern and can be stated, each with its modification time; none if the pattern is
  malformed.
\<close>

definition stat_entry :: "world \<Rightarrow> path \<Rightarrow> (path \<times> int) option" where
  "stat_entry w p =
     (if OpStat p \<in> faults w then None
      else map_option (\<lambda>fi. (p, modTime fi)) (map_of (files w) p))"

definition rotatedFiles :: "oslib \<Rightarrow> LogRotator \<Rightarrow> world \<Rightarrow> (path \<times> int) list" where
  "rotatedFiles lib lr w =
     (if badPattern lib (cleanupPattern lib lr) then []
      else List.map_filter (stat_entry w) (glob_matches lib (cleanupPattern lib lr) (files w)))"

text \<open>
  What \<^verbatim>\<open>sort.Slice\<close> with the comparison \<^verbatim>\<open>files[i].modTime.Before(files[j].modTime)\<close>
  promises: the result is a permutation in which no element is before an earlier one.
\<close>

definition sortsByModTime :: "((path \<times> int) list \<Rightarrow> (path \<times> int) list) \<Rightarrow> bool" where
  "sortsByModTime srt =
     (\<forall>xs. mset (srt xs) = mset xs \<and> sorted_wrt (\<lambda>a b. \<not> snd b < snd a) (srt xs))"

text \<open>Removing the paths of a list one after the other, the results dropped.\<close>

definition removeEach :: "path list \<Rightarrow> world \<Rightarrow> world" where
  "removeEach ps w = fold (\<lambda>p v. snd (os_Remove p v)) ps w"


section \<open>Concrete inputs\<close>

text \<open>
  An instance of the library parameters on which the model runs: a stable insertion sort,
  a matcher that knows the wildcard \<^verbatim>\<open>*\<close> only, paths without a directory part, a
  fixed calendar reading and a gzip that halves a file.
\<close>

fun wildcard :: "string \<Rightarrow> string \<Rightarrow> bool" where
  "wildcard [] s = (s = [])"
| "wildcard (c # cs) [] = (c = CHR ''*'' \<and> wildcard cs [])"
| "wildcard (c # cs) (x # xs) =
     (if c = CHR ''*'' then wildcard cs (x # xs) \<or> wildcard (c # cs) xs
      else c = x \<and> wildcard cs xs)"

definition demoLib :: oslib where
  "demoLib = \<lparr>sort_Slice = sort_key snd,
              badPattern = (\<lambda>pat. CHR ''['' \<in> set pat),
              pathMatch = wildcard,
              filepath_Dir = (\<lambda>p. ''.''),
              filepath_Base = (\<lambda>p. p),
              filepath_Join = (\<lambda>d f. f),
              civilTime = (\<lambda>t. \<lparr>cYear = 2024, cMonth = 3, cDay = 9,
                                  cHour = 14, cMinute = 5, cSecond = 7\<rparr>),
              gzipSize = (\<lambda>n. n div 2 + 20)\<rparr>"

definition demoHandle :: os_file where
  "demoHandle = \<lparr>hname = ''app.log'', hclosed = False\<rparr>"

definition demoRotator :: LogRotator where
  "demoRotator = \<lparr>filePath = ''app.log'', maxSize = 50, maxAge = 1000, maxBackups = 2,
                   compress = False, rotateDaily = False, rotateTime = 0,
                   fileHandle = Some demoHandle, fileSize = 10\<rparr>"

definition demoWorld :: world where
  "demoWorld = \<lparr>files = [(''app.log'', \<lparr>fsize = 10, modTime = 5\<rparr>)], now = 100,
                 faults = {}, space = None, trace = []\<rparr>"

definition dailyRotator :: LogRotator where
  "dailyRotator = demoRotator\<lparr>rotateDaily := True\<rparr>"

definition renameFaultWorld :: world where
  "renameFaultWorld = demoWorld\<lparr>now := 86400000000005,
       faults := {OpRename ''app.log'' ''app-2024-03-09-140507.log''}\<rparr>"

definition zeroConfig :: LogRotatorConfig where
  "zeroConfig = \<lparr>FilePath = ''app.log'', MaxSize = 0, MaxAge = 0, MaxBackups = 0,
                  Compress = False, RotateDaily = False\<rparr>"

definition bigWorld :: world where
  "bigWorld = \<lparr>files = [(''app.log'', \<lparr>fsize = 104857600, modTime = 5\<rparr>)], now = 100,
                faults = {}, space = None, trace = []\<rparr>"

definition gzRotator :: LogRotator where
  "gzRotator = demoRotator\<lparr>compress := True\<rparr>"

definition gzFaultWorld :: world where
  "gzFaultWorld = demoWorld\<lparr>faults := {OpCreate ''app-2024-03-09-140507.log.gz''}\<rparr>"

definition bracketRotator :: LogRotator where
  "bracketRotator = demoRotator\<lparr>filePath := ''a[.log'',
       fileHandle := Some \<lparr>hname = ''a[.log'', hclosed = False\<rparr>\<rparr>"

definition bracketWorld :: world where
  "bracketWorld = demoWorld\<lparr>files := [(''a[.log'', \<lparr>fsize = 10, modTime = 5\<rparr>)]\<rparr>"

definition gzPathRotator :: LogRotator where
  "gzPathRotator = demoRotator\<lparr>filePath := ''app.gz'', compress := True,
       fileHandle := Some \<lparr>hname = ''app.gz'', hclosed = False\<rparr>\<rparr>"

definition gzPathWorld :: world where
  "gzPathWorld = demoWorld\<lparr>files := [(''app.gz'', \<lparr>fsize = 10, modTime = 5\<rparr>)]\<rparr>"

definition backupsWorld :: world where
  "backupsWorld = \<lparr>files = [(''app.log'', \<lparr>fsize = 10, modTime = 50\<rparr>),
                             (''app-a.log'', \<lparr>fsize = 1, modTime = 30\<rparr>),
                             (''app-b.log'', \<lparr>fsize = 1, modTime = 10\<rparr>),
                             (''app-c.log.gz'', \<lparr>fsize = 1, modTime = 40\<rparr>),
                             (''app-d.log'', \<lparr>fsize = 1, modTime = 20\<rparr>),
                             (''other.txt'', \<lparr>fsize = 7, modTime = 1\<rparr>)],
                    now = 100, faults = {}, space = None, trace = []\<rparr>"

section \<open>Facts about the operating system calls\<close>

lemma logEv_simps:
  "files (logEv e w) = files w" "now (logEv e w) = now w" "faults (logEv e w) = faults w"
  "space (logEv e w) = space w" "trace (logEv e w) = trace w @ [e]"
  by (simp_all add: logEv_def)

lemma quiet_refl: "quiet w w"
  by (simp add: quiet_def)

lemma quiet_trans: "quiet w w1 \<Longrightarrow> quiet w1 w2 \<Longrightarrow> quiet w w2"
  by (auto simp: quiet_def)

lemma quiet_logEv: "e \<noteq> EvRotate \<Longrightarrow> quiet w (logEv e w)"
  by (simp add: quiet_def logEv_simps)

lemma quiet_rotations: "quiet w w' \<Longrightarrow> rotations w' = rotations w"
  by (auto simp: quiet_def rotations_def)

lemma calm_refl: "calm w w"
  by (simp add: calm_def)

lemma calm_trans: "calm w w1 \<Longrightarrow> calm w1 w2 \<Longrightarrow> calm w w2"
  by (auto simp: calm_def)

lemma calm_imp_quiet: "calm w w' \<Longrightarrow> quiet w w'"
  by (auto simp: calm_def quiet_def)

lemma calm_no_open: "calm w w' \<Longrightarrow> \<exists>evs. trace w' = trace w @ evs \<and> OpOpenFile p \<notin> set evs"
  by (auto simp: calm_def)

lemma quiet_os_OpenFile: "quiet w (snd (os_OpenFile p w))"
  by (simp add: os_OpenFile_def Let_def quiet_def logEv_simps)

lemma calm_file_Stat: "calm w (snd (file_Stat f w))"
  by (simp add: file_Stat_def Let_def calm_def logEv_simps split: option.splits)

lemma calm_file_Close: "calm w (snd (snd (file_Close f w)))"
  by (simp add: file_Close_def Let_def calm_def logEv_simps)

lemma calm_file_Write: "calm w (snd (snd (file_Write fo p w)))"
  by (simp add: file_Write_def Let_def calm_def logEv_simps split: option.splits)

lemma calm_os_Rename: "calm w (snd (os_Rename a b w))"
  by (simp add: os_Rename_def Let_def calm_def logEv_simps split: option.splits)

lemma calm_os_Open: "calm w (snd (os_Open p w))"
  by (simp add: os_Open_def Let_def calm_def logEv_simps split: option.splits)

lemma calm_os_Create: "calm w (snd (os_Create p w))"
  by (simp add: os_Create_def Let_def calm_def logEv_simps)

lemma calm_io_Copy: "calm w (snd (io_Copy lib d fi s w))"
  by (simp add: io_Copy_def Let_def calm_def logEv_simps)

lemma calm_os_Remove: "calm w (snd (os_Remove p w))"
  by (simp add: os_Remove_def Let_def calm_def logEv_simps)

lemma calm_os_Stat: "calm w (snd (os_Stat p w))"
  by (simp add: os_Stat_def Let_def calm_def logEv_simps split: option.splits)

lemma calm_filepath_Glob: "calm w (snd (filepath_Glob lib pat w))"
  by (simp add: filepath_Glob_def Let_def calm_def logEv_simps)

lemma quiet_openFile: "quiet w (snd (snd (openFile lr w)))"
proof -
  note q1 = quiet_os_OpenFile [of w "filePath lr"]
  show ?thesis
  proof (cases "os_OpenFile (filePath lr) w")
    case (Pair r w1)
    with q1 have a: "quiet w w1" by simp
    show ?thesis
    proof (cases r)
      case (Inl e)
      with Pair a show ?thesis by (simp add: openFile_def)
    next
      case (Inr f)
      obtain r2 w2 where s: "file_Stat f w1 = (r2, w2)" by (cases "file_Stat f w1")
      with calm_imp_quiet [OF calm_file_Stat [of w1 f]] have b: "quiet w1 w2" by simp
      obtain r3 f3 w3 where c: "file_Close f w2 = (r3, f3, w3)" by (cases "file_Close f w2") auto
      with calm_imp_quiet [OF calm_file_Close [of w2 f]] have d: "quiet w2 w3" by simp
      from a b d have "quiet w w2" "quiet w w3" by (blast intro: quiet_trans)+
      with Pair Inr s c show ?thesis by (simp add: openFile_def split: sum.splits)
    qed
  qed
qed

lemma calm_compressFile: "calm w (snd (compressFile lib fn w))"
proof (cases "strings_HasSuffix fn ''.gz''")
  case True
  then show ?thesis by (simp add: compressFile_def calm_refl)
next
  case False
  obtain r1 w1 where a: "os_Open fn w = (r1, w1)" by (cases "os_Open fn w")
  with calm_os_Open [of w fn] have qa: "calm w w1" by simp
  obtain r2 w2 where b: "os_Create (fn @ ''.gz'') w1 = (r2, w2)" by (cases "os_Create (fn @ ''.gz'') w1")
  with calm_os_Create [of w1 "fn @ ''.gz''"] have qb: "calm w w2" using qa by (auto intro: calm_trans)
  show ?thesis
  proof (cases r1)
    case (Inl e)
    with False a qa show ?thesis by (simp add: compressFile_def)
  next
    case (Inr src)
    obtain r3 w3 where c: "io_Copy lib (fn @ ''.gz'') src fn w2 = (r3, w3)"
      by (cases "io_Copy lib (fn @ ''.gz'') src fn w2")
    with calm_io_Copy [of w2 lib "fn @ ''.gz''" src fn] have qc: "calm w w3" using qb by (auto intro: calm_trans)
    from calm_os_Remove [of w3 fn] qc have qd: "calm w (snd (os_Remove fn w3))" by (auto intro: calm_trans)
    from False a Inr b c qb qc qd show ?thesis
      by (simp add: compressFile_def split: option.splits)
  qed
qed

lemma calm_statAll: "calm w (snd (statAll ms w))"
proof (induction ms arbitrary: w)
  case Nil
  then show ?case by (simp add: calm_refl)
next
  case (Cons m ms)
  obtain r w1 where a: "os_Stat m w = (r, w1)" by (cases "os_Stat m w")
  with calm_os_Stat [of w m] have qa: "calm w w1" by simp
  from Cons [of w1] qa have "calm w (snd (statAll ms w1))" by (blast intro: calm_trans)
  with a show ?case by (auto split: sum.splits prod.splits)
qed

lemma calm_removeOld: "calm w (removeOld c fs w)"
proof (induction fs arbitrary: w)
  case Nil
  then show ?case by (simp add: calm_refl)
next
  case (Cons f fs)
  from Cons [of "snd (os_Remove (fst f) w)"] calm_os_Remove [of w "fst f"]
  have "calm w (removeOld c fs (snd (os_Remove (fst f) w)))" by (blast intro: calm_trans)
  with Cons [of w] show ?case by simp
qed

lemma calm_removeExcess: "calm w (removeExcess i t fs w)"
proof (induction i t fs w rule: removeExcess.induct)
  case (1 i t fs w)
  show ?case
  proof (cases "int i < t \<and> i < length fs")
    case True
    with 1 have "calm (snd (os_Remove (fst (fs ! i)) w)) (removeExcess (i + 1) t fs (snd (os_Remove (fst (fs ! i)) w)))"
      by simp
    with calm_os_Remove [of w "fst (fs ! i)"] have "calm w (removeExcess (i + 1) t fs (snd (os_Remove (fst (fs ! i)) w)))"
      by (blast intro: calm_trans)
    with True show ?thesis by (subst removeExcess.simps) simp
  next
    case False
    then show ?thesis by (subst removeExcess.simps) (auto simp: calm_refl)
  qed
qed

lemma calm_cleanup: "calm w (snd (cleanup lib lr w))"
proof -
  obtain r w1 where a: "filepath_Glob lib (cleanupPattern lib lr) w = (r, w1)"
    by (cases "filepath_Glob lib (cleanupPattern lib lr) w")
  with calm_filepath_Glob [of w lib "cleanupPattern lib lr"] have qa: "calm w w1" by simp
  show ?thesis
  proof (cases r)
    case (Inl e)
    with a qa show ?thesis by (simp add: cleanup_def)
  next
    case (Inr ms)
    obtain fs w2 where b: "statAll ms w1 = (fs, w2)" by (cases "statAll ms w1")
    with calm_statAll [of w1 ms] qa have qb: "calm w w2" by (auto intro: calm_trans)
    let ?fs = "sort_Slice lib fs"
    let ?w3 = "removeOld (now w2 - maxAge lr) ?fs w2"
    from calm_removeOld [of w2] qb have qc: "calm w ?w3" by (blast intro: calm_trans)
    from calm_removeExcess [of ?w3] qc
    have qd: "calm w (removeExcess 0 (int (length ?fs) - maxBackups lr) ?fs ?w3)"
      by (blast intro: calm_trans)
    from a Inr b qc qd show ?thesis by (simp add: cleanup_def Let_def)
  qed
qed


section \<open>Facts about the rotation cycle\<close>


lemma openFile_quietD: "openFile lr w = (r, lr1, w1) \<Longrightarrow> quiet w w1"
  using quiet_openFile [of w lr] by simp

lemma file_Close_calmD: "file_Close f w = (r, f1, w1) \<Longrightarrow> calm w w1"
  using calm_file_Close [of w f] by simp

lemma file_Close_quietD: "file_Close f w = (r, f1, w1) \<Longrightarrow> quiet w w1"
  by (rule calm_imp_quiet) (rule file_Close_calmD)

lemma os_Rename_calmD: "os_Rename a b w = (r, w1) \<Longrightarrow> calm w w1"
  using calm_os_Rename [of w a b] by simp

lemma os_Rename_quietD: "os_Rename a b w = (r, w1) \<Longrightarrow> quiet w w1"
  by (rule calm_imp_quiet) (rule os_Rename_calmD)

lemma compressFile_calmD: "compressFile lib fn w = (r, w1) \<Longrightarrow> calm w w1"
  using calm_compressFile [of w lib fn] by simp

lemma compressFile_quietD: "compressFile lib fn w = (r, w1) \<Longrightarrow> quiet w w1"
  by (rule calm_imp_quiet) (rule compressFile_calmD)

lemma cleanup_calmD: "cleanup lib lr w = (r, w1) \<Longrightarrow> calm w w1"
  using calm_cleanup [of w lib lr] by simp

lemma cleanup_quietD: "cleanup lib lr w = (r, w1) \<Longrightarrow> quiet w w1"
  by (rule calm_imp_quiet) (rule cleanup_calmD)

lemma file_Write_quietD: "file_Write fo p w = (n, r, w1) \<Longrightarrow> quiet w w1"
  using calm_imp_quiet [OF calm_file_Write [of w fo p]] by simp

lemma openFile_rotator:
  assumes "openFile lr w = (r, lr1, w1)"
  shows "filePath lr1 = filePath lr \<and> maxSize lr1 = maxSize lr \<and> maxAge lr1 = maxAge lr
       \<and> maxBackups lr1 = maxBackups lr \<and> compress lr1 = compress lr
       \<and> rotateDaily lr1 = rotateDaily lr \<and> rotateTime lr1 = rotateTime lr"
  using assms by (auto simp: openFile_def split: prod.splits sum.splits)

lemma rotate_quiet:
  assumes "rotate lib lr w = (r, lr1, w1)"
  shows "quiet (logEv EvRotate w) w1"
  using assms unfolding rotate_def Let_def
  apply (auto split: option.splits prod.splits if_splits
           dest!: openFile_quietD file_Close_quietD os_Rename_quietD compressFile_quietD cleanup_quietD)
   apply (blast intro: quiet_trans)+
  done

lemma rotate_rotator:
  assumes "rotate lib lr w = (r, lr1, w1)"
  shows "filePath lr1 = filePath lr \<and> maxSize lr1 = maxSize lr \<and> maxAge lr1 = maxAge lr
       \<and> maxBackups lr1 = maxBackups lr \<and> compress lr1 = compress lr
       \<and> rotateDaily lr1 = rotateDaily lr \<and> rotateTime lr1 = rotateTime lr"
  using assms unfolding rotate_def Let_def
  by (auto split: option.splits prod.splits if_splits dest!: openFile_rotator)

lemma rotate_rotations:
  assumes "rotate lib lr w = (r, lr1, w1)"
  shows "rotations w1 = rotations w + 1"
proof -
  from rotate_quiet [OF assms] have "rotations w1 = rotations (logEv EvRotate w)"
    by (rule quiet_rotations)
  then show ?thesis by (simp add: rotations_def logEv_simps)
qed


section \<open>The steps of the rotation cycle\<close>


lemma generateRotatedName_fileHandle [simp]:
  "generateRotatedName lib (lr\<lparr>fileHandle := h\<rparr>) w = generateRotatedName lib lr w"
  by (simp add: generateRotatedName_def)

lemma generateRotatedName_nonempty [simp]: "generateRotatedName lib lr w \<noteq> []"
  by (simp add: generateRotatedName_def Let_def)

lemma cleanup_fileHandle [simp]: "cleanup lib (lr\<lparr>fileHandle := h\<rparr>) w = cleanup lib lr w"
  by (simp add: cleanup_def cleanupPattern_def Let_def split: prod.splits sum.splits)

lemma file_Close_ok:
  assumes "file_Close f w = (None, f1, w1)"
  shows "f1 = f\<lparr>hclosed := True\<rparr> \<and> w1 = logEv (OpClose (hname f)) w \<and> \<not> hclosed f"
  using assms by (auto simp: file_Close_def Let_def split: if_splits)

lemma calm_after_logEv:
  assumes "calm (logEv e w) w'"
  shows "\<exists>evs. trace w' = trace w @ e # evs \<and> EvRotate \<notin> set evs \<and> (\<forall>p. OpOpenFile p \<notin> set evs)"
  using assms by (auto simp: calm_def logEv_simps)

lemma cleanup_after_glob:
  assumes "cleanup lib lr w = (r, w')"
  shows "calm (logEv (OpGlob (cleanupPattern lib lr)) w) w'"
proof -
  let ?g = "logEv (OpGlob (cleanupPattern lib lr)) w"
  show ?thesis
  proof (cases "badPattern lib (cleanupPattern lib lr)")
    case True
    with assms show ?thesis by (simp add: cleanup_def filepath_Glob_def Let_def calm_refl)
  next
    case False
    let ?ms = "glob_matches lib (cleanupPattern lib lr) (files w)"
    obtain fs w2 where b: "statAll ?ms ?g = (fs, w2)" by (cases "statAll ?ms ?g")
    with calm_statAll [of ?g ?ms] have qb: "calm ?g w2" by simp
    let ?fs = "sort_Slice lib fs"
    let ?w3 = "removeOld (now w2 - maxAge lr) ?fs w2"
    from calm_removeOld [of w2] qb have qc: "calm ?g ?w3" by (blast intro: calm_trans)
    from calm_removeExcess [of ?w3] qc
    have qd: "calm ?g (removeExcess 0 (int (length ?fs) - maxBackups lr) ?fs ?w3)"
      by (blast intro: calm_trans)
    from assms False b qc qd show ?thesis
      by (auto simp add: cleanup_def filepath_Glob_def Let_def split: if_splits)
  qed
qed

text \<open>
  The rotation cycle up to the cleanup step: the handle is closed, the file renamed and,
  if enabled, compressed, each without error.
\<close>

lemma rotate_to_cleanup:
  assumes "fileHandle lr = Some f"
    and "file_Close f (logEv EvRotate w) = (None, f1, w1)"
    and "os_Rename (filePath lr) (generateRotatedName lib lr w1) w1 = (None, w2)"
    and "(if compress lr then compressFile lib (generateRotatedName lib lr w1) w2 else (None, w2)) = (None, w3)"
  shows "rotate lib lr w =
     (case cleanup lib lr w3 of
        (Some e, w4) \<Rightarrow> (Some (ErrorfW ''failed to cleanup old files'' e), lr\<lparr>fileHandle := Some f1\<rparr>, w4)
      | (None, w4) \<Rightarrow> openFile (lr\<lparr>fileHandle := Some f1\<rparr>) w4)"
proof (cases "compress lr")
  case True
  with assms show ?thesis by (simp add: rotate_def Let_def)
next
  case False
  with assms show ?thesis by (simp add: rotate_def Let_def)
qed

lemma rotate_trace_to_cleanup:
  assumes "file_Close f (logEv EvRotate w) = (None, f1, w1)"
    and "os_Rename a b w1 = (None, w2)"
    and "(if c then compressFile lib b w2 else (None, w2)) = (r3, w3)"
  shows "\<exists>evs. trace w3 = trace w @ evs \<and> (\<forall>p. OpOpenFile p \<notin> set evs)"
proof -
  from file_Close_ok [OF assms(1)] have "trace w1 = trace w @ [EvRotate, OpClose (hname f)]"
    by (simp add: logEv_simps)
  moreover from os_Rename_calmD [OF assms(2)] have "calm w1 w2" .
  moreover from assms(3) have "calm w2 w3"
    by (auto split: if_splits intro: calm_refl dest: compressFile_calmD)
  ultimately show ?thesis by (auto simp: calm_def)
qed


section \<open>Facts about extensions, suffixes and time stamps\<close>


lemma ext_scan_suffix: "\<exists>pre. rev rs @ acc = pre @ ext_scan rs acc"
proof (induction rs arbitrary: acc)
  case Nil
  then show ?case by simp
next
  case (Cons c rs)
  from Cons [of "c # acc"] show ?case by auto
qed

lemma ext_scan_shape:
  "ext_scan rs acc = [] \<or> (\<exists>k. k \<le> length rs \<and> ext_scan rs acc = CHR ''.'' # rev (take k rs) @ acc
       \<and> CHR ''.'' \<notin> set (take k rs) \<and> CHR ''/'' \<notin> set (take k rs) \<and> k < length rs \<and> rs ! k = CHR ''.'')"
proof (induction rs arbitrary: acc)
  case Nil
  then show ?case by simp
next
  case (Cons c rs)
  show ?case
  proof (cases "c = CHR ''/''")
    case True
    then show ?thesis by simp
  next
    case nsl: False
    show ?thesis
    proof (cases "c = CHR ''.''")
      case True
      then have "ext_scan (c # rs) acc = CHR ''.'' # rev (take 0 (c # rs)) @ acc" by simp
      with True show ?thesis by force
    next
      case False
      from Cons [of "c # acc"] show ?thesis
      proof
        assume "ext_scan rs (c # acc) = []"
        with False nsl show ?thesis by simp
      next
        assume "\<exists>k. k \<le> length rs \<and> ext_scan rs (c # acc) = CHR ''.'' # rev (take k rs) @ c # acc
           \<and> CHR ''.'' \<notin> set (take k rs) \<and> CHR ''/'' \<notin> set (take k rs) \<and> k < length rs \<and> rs ! k = CHR ''.''"
        then obtain k where k: "k \<le> length rs" "ext_scan rs (c # acc) = CHR ''.'' # rev (take k rs) @ c # acc"
           "CHR ''.'' \<notin> set (take k rs)" "CHR ''/'' \<notin> set (take k rs)" "k < length rs" "rs ! k = CHR ''.''"
          by blast
        with False nsl have "Suc k \<le> length (c # rs) \<and> ext_scan (c # rs) acc = CHR ''.'' # rev (take (Suc k) (c # rs)) @ acc
           \<and> CHR ''.'' \<notin> set (take (Suc k) (c # rs)) \<and> CHR ''/'' \<notin> set (take (Suc k) (c # rs))
           \<and> Suc k < length (c # rs) \<and> (c # rs) ! Suc k = CHR ''.''"
          by simp
        then show ?thesis by blast
      qed
    qed
  qed
qed

lemma filepath_Ext_suffix: "\<exists>pre. p = pre @ filepath_Ext p"
  using ext_scan_suffix [of "rev p" "[]"] by (simp add: filepath_Ext_def)

lemma filepath_Ext_shape:
  "filepath_Ext p = [] \<or> (\<exists>r. filepath_Ext p = CHR ''.'' # r \<and> CHR ''.'' \<notin> set r \<and> CHR ''/'' \<notin> set r)"
  using ext_scan_shape [of "rev p" "[]"]
  by (auto simp: filepath_Ext_def dest: in_set_takeD)

lemma HasSuffix_iff: "strings_HasSuffix s suf \<longleftrightarrow> (\<exists>pre. s = pre @ suf)"
proof
  assume "strings_HasSuffix s suf"
  then have "s = take (length s - length suf) s @ suf"
    by (metis append_take_drop_id strings_HasSuffix_def)
  then show "\<exists>pre. s = pre @ suf" ..
next
  assume "\<exists>pre. s = pre @ suf"
  then show "strings_HasSuffix s suf" by (auto simp: strings_HasSuffix_def)
qed

lemma TrimSuffix_append: "strings_TrimSuffix (pre @ suf) suf = pre"
proof -
  have "strings_HasSuffix (pre @ suf) suf" by (auto simp: HasSuffix_iff)
  then show ?thesis by (simp add: strings_TrimSuffix_def)
qed

lemma TrimSuffix_Ext: "strings_TrimSuffix p (filepath_Ext p) @ filepath_Ext p = p"
proof -
  from filepath_Ext_suffix [of p] obtain pre where a: "p = pre @ filepath_Ext p" ..
  then have "strings_TrimSuffix p (filepath_Ext p) = pre" by (metis TrimSuffix_append)
  with a show ?thesis by simp
qed

lemma last_sep_unique:
  assumes "xs @ c # ys = xs' @ c # ys'" "c \<notin> set ys" "c \<notin> set ys'"
  shows "ys = ys'"
  using assms
  by (auto simp: append_eq_append_conv2 append_eq_Cons_conv Cons_eq_append_conv)


lemma isDigit_digit_char: "d < 10 \<Longrightarrow> isDigit (digit_char d)"
proof -
  assume "d < 10"
  then have "d \<in> {0, 1, 2, 3, 4, 5, 6, 7, 8, 9}" by auto
  then show ?thesis by (auto simp: isDigit_def digit_char_def)
qed

lemma digit_char_0: "digit_char 0 = CHR ''0''"
  by (simp add: digit_char_def)

lemma utod_nonempty: "utod n \<noteq> []"
  by (subst utod.simps) simp

lemma last_utod: "last (utod n) = digit_char (n mod 10)"
  by (subst utod.simps) simp

lemma utod_1: "n < 10 \<Longrightarrow> utod n = [digit_char n]"
  by (subst utod.simps) simp

lemma utod_2: "10 \<le> n \<Longrightarrow> n < 100 \<Longrightarrow> utod n = [digit_char (n div 10), digit_char (n mod 10)]"
  by (subst utod.simps) (simp add: utod_1)

lemma utod_3: "100 \<le> n \<Longrightarrow> n < 1000 \<Longrightarrow>
    utod n = [digit_char (n div 100), digit_char (n div 10 mod 10), digit_char (n mod 10)]"
  by (subst utod.simps) (simp add: utod_2 div_mult2_eq [symmetric])

lemma utod_4: "1000 \<le> n \<Longrightarrow> n < 10000 \<Longrightarrow>
    utod n = [digit_char (n div 1000), digit_char (n div 100 mod 10), digit_char (n div 10 mod 10),
              digit_char (n mod 10)]"
  by (subst utod.simps) (simp add: utod_3 div_mult2_eq [symmetric])

lemma replicate_small:
  "replicate 3 c = [c, c, c]" "replicate 2 c = [c, c]" "replicate (Suc 0) c = [c]"
  by (simp_all add: numeral_3_eq_3 numeral_2_eq_2)

lemma appendInt_2:
  assumes "0 \<le> x" "x < 100"
  shows "appendInt x 2 = [digit_char (nat x div 10), digit_char (nat x mod 10)]"
proof (cases "nat x < 10")
  case True
  with assms show ?thesis by (simp add: appendInt_def utod_1 digit_char_0 replicate_small)
next
  case False
  with assms have "10 \<le> nat x" "nat x < 100" by auto
  with assms show ?thesis by (simp add: appendInt_def utod_2)
qed

lemma appendInt_4:
  assumes "0 \<le> x" "x < 10000"
  shows "appendInt x 4 = [digit_char (nat x div 1000), digit_char (nat x div 100 mod 10),
                          digit_char (nat x div 10 mod 10), digit_char (nat x mod 10)]"
proof -
  consider "nat x < 10" | "10 \<le> nat x" "nat x < 100" | "100 \<le> nat x" "nat x < 1000"
    | "1000 \<le> nat x" "nat x < 10000" using assms by linarith
  then show ?thesis
  proof cases
    case 1
    with assms show ?thesis
      by (simp add: appendInt_def utod_1 digit_char_0 replicate_small)
  next
    case 2
    with assms show ?thesis
      by (simp add: appendInt_def utod_2 digit_char_0 replicate_small)
  next
    case 3
    with assms show ?thesis
      by (simp add: appendInt_def utod_3 digit_char_0 replicate_small)
  next
    case 4
    with assms show ?thesis by (simp add: appendInt_def utod_4)
  qed
qed

lemma stampForm_time_Format:
  assumes "0 \<le> cYear c" "cYear c < 10000" "0 \<le> cMonth c" "cMonth c < 100"
    "0 \<le> cDay c" "cDay c < 100" "0 \<le> cHour c" "cHour c < 100"
    "0 \<le> cMinute c" "cMinute c < 100" "0 \<le> cSecond c" "cSecond c < 100"
  shows "stampForm (time_Format c)"
  using assms
  by (simp add: time_Format_def appendInt_2 appendInt_4 stampForm_def isDigit_digit_char)

lemma last_appendInt: "last (appendInt x k) = digit_char (nat \<bar>x\<bar> mod 10)"
  by (simp add: appendInt_def Let_def utod_nonempty last_utod)

lemma appendInt_nonempty: "appendInt x k \<noteq> []"
  by (simp add: appendInt_def Let_def utod_nonempty)

lemma last_time_Format: "time_Format c \<noteq> [] \<and> isDigit (last (time_Format c))"
  by (simp add: time_Format_def appendInt_nonempty last_appendInt isDigit_digit_char)


section \<open>Facts about the compression step\<close>


lemma map_of_delete_path: "map_of (delete_path p fs) q = (if q = p then None else map_of fs q)"
  by (induction fs) (auto simp: delete_path_def)

lemma map_of_put_path_other: "map_of (put_path p fi fs) q = (if q = p then Some fi else map_of fs q)"
  by (simp add: put_path_def map_of_delete_path)

lemma compressFile_result:
  assumes "compressFile lib fn w = (None, w')" "\<not> strings_HasSuffix fn ''.gz''"
  shows "exists_path w' (fn @ ''.gz'') \<and> \<not> exists_path w' fn"
  using assms
  by (auto simp: compressFile_def os_Open_def os_Create_def io_Copy_def os_Remove_def Let_def
        logEv_simps exists_path_def map_of_delete_path map_of_put_path_other
      split: if_splits option.splits)

lemma compressFile_skip:
  "strings_HasSuffix fn ''.gz'' \<Longrightarrow> compressFile lib fn w = (None, w)"
  by (simp add: compressFile_def)

lemma isDigit_not_z: "isDigit c \<Longrightarrow> c \<noteq> CHR ''z''"
  by (auto simp: isDigit_def)

lemma rotated_name_gz:
  "strings_HasSuffix (generateRotatedName lib lr w) ''.gz'' \<longleftrightarrow> filepath_Ext (filePath lr) = ''.gz''"
proof -
  let ?e = "filepath_Ext (filePath lr)"
  let ?pre = "strings_TrimSuffix (filePath lr) ?e @ ''-'' @ time_Format (civilTime lib (now w))"
  have n: "generateRotatedName lib lr w = ?pre @ ?e"
    by (simp add: generateRotatedName_def Let_def)
  show ?thesis
  proof
    assume "?e = ''.gz''"
    with n show "strings_HasSuffix (generateRotatedName lib lr w) ''.gz''"
      by (auto simp: HasSuffix_iff)
  next
    assume "strings_HasSuffix (generateRotatedName lib lr w) ''.gz''"
    then obtain pfx where p: "?pre @ ?e = pfx @ ''.gz''" using n by (auto simp: HasSuffix_iff)
    from filepath_Ext_shape [of "filePath lr"] show "?e = ''.gz''"
    proof
      assume e: "?e = []"
      from last_time_Format [of "civilTime lib (now w)"]
      have "last ?pre \<noteq> CHR ''z''" by (simp add: isDigit_not_z)
      moreover from p e have "last ?pre = CHR ''z''" by (metis append_Nil2 last_appendR last.simps list.distinct(1) last_snoc append_assoc append_Cons)
      ultimately show ?thesis by simp
    next
      assume "\<exists>r. ?e = CHR ''.'' # r \<and> CHR ''.'' \<notin> set r \<and> CHR ''/'' \<notin> set r"
      then obtain r where r: "?e = CHR ''.'' # r" "CHR ''.'' \<notin> set r" by blast
      with p have "?pre @ CHR ''.'' # r = pfx @ CHR ''.'' # ''gz''" by simp
      from last_sep_unique [OF this r(2)] have "r = ''gz''" by simp
      with r show ?thesis by simp
    qed
  qed
qed


section \<open>Facts about the cleanup\<close>


lemma stat_entry_logEv [simp]: "stat_entry (logEv e w) = stat_entry w"
  by (rule ext) (simp add: stat_entry_def logEv_simps)

lemma os_Stat_entry:
  "os_Stat p w = (r, w1) \<Longrightarrow>
     w1 = logEv (OpStat p) w \<and> (case r of Inl e \<Rightarrow> stat_entry w p = None
                                 | Inr fi \<Rightarrow> stat_entry w p = Some (p, modTime fi))"
  by (auto simp: os_Stat_def stat_entry_def Let_def split: if_splits option.splits)

lemma statAll_listing:
  "statAll ms w = (fs, w') \<Longrightarrow>
     fs = List.map_filter (stat_entry w) ms \<and> files w' = files w \<and> faults w' = faults w
     \<and> now w' = now w \<and> space w' = space w"
proof (induction ms arbitrary: w fs w')
  case Nil
  then show ?case by (simp add: List.map_filter_simps)
next
  case (Cons m ms)
  obtain r w1 where s: "os_Stat m w = (r, w1)" by (cases "os_Stat m w")
  note e = os_Stat_entry [OF s]
  obtain fs2 w2 where t: "statAll ms w1 = (fs2, w2)" by (cases "statAll ms w1")
  from Cons.IH [OF t] e have ih: "fs2 = List.map_filter (stat_entry w) ms" "files w2 = files w"
    "faults w2 = faults w" "now w2 = now w" "space w2 = space w"
    by (simp_all add: logEv_simps)
  show ?case
  proof (cases r)
    case (Inl err)
    with Cons.prems s t e ih show ?thesis by (simp add: List.map_filter_simps)
  next
    case (Inr fi)
    with Cons.prems s t e ih show ?thesis by (simp add: List.map_filter_simps)
  qed
qed

lemma removeOld_none:
  "\<forall>f \<in> set fs. \<not> snd f < c \<Longrightarrow> removeOld c fs w = w"
  by (induction fs) auto

lemma removeExcess_fold:
  "removeExcess i t fs w = removeEach (map fst (drop i (take (nat t) fs))) w"
proof (induction i t fs w rule: removeExcess.induct)
  case (1 i t fs w)
  show ?case
  proof (cases "int i < t \<and> i < length fs")
    case True
    then have l: "i < length (take (nat t) fs)" by (simp add: zless_nat_eq_int_zless)
    from True have n: "take (nat t) fs ! i = fs ! i" by (simp add: zless_nat_eq_int_zless)
    from Cons_nth_drop_Suc [OF l] n
    have d: "drop i (take (nat t) fs) = fs ! i # drop (Suc i) (take (nat t) fs)" by simp
    from True 1 have "removeExcess (i + 1) t fs (snd (os_Remove (fst (fs ! i)) w))
       = removeEach (map fst (drop (i + 1) (take (nat t) fs))) (snd (os_Remove (fst (fs ! i)) w))"
      by simp
    with True d show ?thesis
      by (subst removeExcess.simps) (simp add: removeEach_def)
  next
    case False
    then have "drop i (take (nat t) fs) = []" by auto
    with False show ?thesis
      by (subst removeExcess.simps) (auto simp: removeEach_def)
  qed
qed

lemma delete_path_absent: "map_of fs p = None \<Longrightarrow> delete_path p fs = fs"
  by (induction fs) (auto simp: delete_path_def split: if_splits)

lemma os_Remove_files:
  "OpRemove p \<notin> faults w \<Longrightarrow>
     files (snd (os_Remove p w)) = delete_path p (files w)
     \<and> faults (snd (os_Remove p w)) = faults w \<and> now (snd (os_Remove p w)) = now w"
  by (simp add: os_Remove_def Let_def logEv_simps exists_path_def delete_path_absent)

lemma removeEach_files:
  "\<forall>p \<in> set ps. OpRemove p \<notin> faults w \<Longrightarrow>
     files (removeEach ps w) = filter (\<lambda>e. fst e \<notin> set ps) (files w)
     \<and> faults (removeEach ps w) = faults w \<and> now (removeEach ps w) = now w"
proof (induction ps arbitrary: w)
  case Nil
  then show ?case by (simp add: removeEach_def)
next
  case (Cons p ps)
  let ?w1 = "snd (os_Remove p w)"
  from Cons.prems have a: "OpRemove p \<notin> faults w" by simp
  note r = os_Remove_files [OF a]
  from Cons.prems r have "\<forall>q \<in> set ps. OpRemove q \<notin> faults ?w1" by simp
  from Cons.IH [OF this] r
  have "files (removeEach ps ?w1) = filter (\<lambda>e. fst e \<notin> set ps) (delete_path p (files w))"
    "faults (removeEach ps ?w1) = faults w" "now (removeEach ps ?w1) = now w" by simp_all
  moreover have "removeEach (p # ps) w = removeEach ps ?w1" by (simp add: removeEach_def)
  moreover have "filter (\<lambda>e. fst e \<notin> set ps) (delete_path p (files w))
      = filter (\<lambda>e. fst e \<notin> set (p # ps)) (files w)"
    by (auto simp: delete_path_def intro: filter_cong)
  ultimately show ?case by simp
qed


lemma map_of_filter_keys:
  "p \<notin> R \<Longrightarrow> map_of (filter (\<lambda>e. fst e \<notin> R) fs) p = map_of fs p"
  by (induction fs) auto

lemma glob_matches_filter:
  "glob_matches lib pat (filter (\<lambda>e. fst e \<notin> R) fs) = filter (\<lambda>p. p \<notin> R) (glob_matches lib pat fs)"
proof -
  have "filter (pathMatch lib pat) (map fst (filter (\<lambda>e. fst e \<notin> R) fs))
      = filter (\<lambda>p. p \<notin> R) (filter (pathMatch lib pat) (map fst fs))"
    by (induction fs) auto
  then show ?thesis by (simp add: glob_matches_def remdups_filter)
qed

lemma stat_entry_fst: "stat_entry w p = Some f \<Longrightarrow> fst f = p"
  by (auto simp: stat_entry_def split: if_splits)

lemma map_filter_stat_filter:
  assumes "\<And>p. p \<notin> R \<Longrightarrow> stat_entry w' p = stat_entry w p"
  shows "List.map_filter (stat_entry w') (filter (\<lambda>p. p \<notin> R) ms)
       = filter (\<lambda>f. fst f \<notin> R) (List.map_filter (stat_entry w) ms)"
proof (induction ms)
  case Nil
  then show ?case by (simp add: List.map_filter_simps)
next
  case (Cons m ms)
  show ?case
  proof (cases "m \<in> R")
    case True
    with Cons show ?thesis
      by (auto simp: List.map_filter_simps dest: stat_entry_fst split: option.splits)
  next
    case False
    with Cons assms [OF False] show ?thesis
      by (auto simp: List.map_filter_simps dest: stat_entry_fst split: option.splits)
  qed
qed

lemma rotatedFiles_after_removal:
  assumes "files w' = filter (\<lambda>e. fst e \<notin> R) (files w)" and "faults w' = faults w"
  shows "rotatedFiles lib lr w' = filter (\<lambda>f. fst f \<notin> R) (rotatedFiles lib lr w)"
proof -
  have "stat_entry w' p = stat_entry w p" if "p \<notin> R" for p
    using assms that by (simp add: stat_entry_def map_of_filter_keys)
  from map_filter_stat_filter [of R w' w, OF this] assms show ?thesis
    by (simp add: rotatedFiles_def glob_matches_filter)
qed

lemma map_fst_map_filter_stat:
  "map fst (List.map_filter (stat_entry w) ms) = filter (\<lambda>p. stat_entry w p \<noteq> None) ms"
  by (induction ms) (auto simp: List.map_filter_simps dest: stat_entry_fst split: option.splits)

lemma distinct_rotatedFiles: "distinct (map fst (rotatedFiles lib lr w))"
  by (simp add: rotatedFiles_def map_fst_map_filter_stat glob_matches_def)

lemma filter_take_drop:
  assumes "distinct (map fst S)"
  shows "filter (\<lambda>f. fst f \<notin> fst ` set (take n S)) S = drop n S"
proof -
  have S: "S = take n S @ drop n S" by simp
  from assms have "distinct (map fst (take n S) @ map fst (drop n S))"
    by (simp only: map_append [symmetric] append_take_drop_id)
  then have "set (map fst (take n S)) \<inter> set (map fst (drop n S)) = {}"
    by (simp only: distinct_append)
  then have disj: "fst ` set (take n S) \<inter> fst ` set (drop n S) = {}" by simp
  have a: "filter (\<lambda>f. fst f \<notin> fst ` set (take n S)) (take n S) = []"
    by (auto simp: filter_empty_conv)
  from disj have b: "filter (\<lambda>f. fst f \<notin> fst ` set (take n S)) (drop n S) = drop n S"
    by (auto simp: filter_id_conv)
  have "filter (\<lambda>f. fst f \<notin> fst ` set (take n S)) (take n S @ drop n S) = drop n S"
    unfolding filter_append a b by simp
  then show ?thesis by simp
qed

lemma kept_files:
  assumes "mset S = mset L" and "distinct (map fst L)"
  shows "length (filter (\<lambda>f. fst f \<notin> fst ` set (take n S)) L) = length S - n"
    and "set (filter (\<lambda>f. fst f \<notin> fst ` set (take n S)) L) = set (drop n S)"
    and "set L - set (drop n S) \<subseteq> set (take n S)"
proof -
  let ?P = "\<lambda>f. fst f \<notin> fst ` set (take n S)"
  from assms have d: "distinct (map fst S)"
    by (metis distinct_map mset_eq_setD mset_eq_imp_distinct_iff)
  from assms(1) have "mset (filter ?P S) = mset (filter ?P L)" by simp
  then have "length (filter ?P S) = length (filter ?P L)" by (rule mset_eq_length)
  with filter_take_drop [OF d, of n] show "length (filter ?P L) = length S - n" by simp
  from assms(1) have s: "set S = set L" by (rule mset_eq_setD)
  then have "set (filter ?P L) = set (filter ?P S)" by auto
  with filter_take_drop [OF d, of n] show "set (filter ?P L) = set (drop n S)" by simp
  have "set S = set (take n S) \<union> set (drop n S)" by (metis append_take_drop_id set_append)
  with s show "set L - set (drop n S) \<subseteq> set (take n S)" by auto
qed

lemma sorted_take_drop:
  assumes "sorted_wrt (\<lambda>a b. \<not> snd b < snd a) S" "d \<in> set (take n S)" "k \<in> set (drop n S)"
  shows "snd d \<le> (snd k :: int)"
proof -
  from assms(1) have "sorted_wrt (\<lambda>a b. \<not> snd b < snd a) (take n S @ drop n S)" by simp
  with assms(2,3) have "\<not> snd k < snd d" unfolding sorted_wrt_append by blast
  then show ?thesis by simp
qed


section \<open>The handle is never dropped\<close>

text \<open>
  A writer that \<open>NewLogRotator\<close> returns holds an open handle, and no operation resets
  the handle.
\<close>

lemma openFile_success:
  assumes "openFile lr w = (None, lr1, w1)"
  shows "(\<exists>f. fileHandle lr1 = Some f \<and> \<not> hclosed f \<and> hname f = filePath lr)
       \<and> filePath lr1 = filePath lr \<and> maxSize lr1 = maxSize lr \<and> maxAge lr1 = maxAge lr
       \<and> maxBackups lr1 = maxBackups lr \<and> compress lr1 = compress lr
       \<and> rotateDaily lr1 = rotateDaily lr \<and> rotateTime lr1 = rotateTime lr"
proof -
  from assms have "\<exists>f. fileHandle lr1 = Some f \<and> \<not> hclosed f \<and> hname f = filePath lr"
    by (auto simp: openFile_def os_OpenFile_def Let_def split: prod.splits sum.splits if_splits)
  with openFile_rotator [OF assms] show ?thesis by simp
qed

lemma NewLogRotator_success:
  assumes "NewLogRotator lib config w0 = (Inr lr0, w1)"
  shows "filePath lr0 = FilePath config
       \<and> maxSize lr0 = (if MaxSize config = 0 then 104857600 else MaxSize config)
       \<and> maxAge lr0 = (if MaxAge config = 0 then 7 * 24 * hour_ns else MaxAge config)
       \<and> maxBackups lr0 = (if MaxBackups config = 0 then 5 else MaxBackups config)
       \<and> compress lr0 = Compress config \<and> rotateDaily lr0 = RotateDaily config
       \<and> (\<exists>f. fileHandle lr0 = Some f \<and> \<not> hclosed f \<and> hname f = FilePath config)"
  using assms unfolding NewLogRotator_def Let_def
  by (auto split: if_splits prod.splits option.splits dest!: openFile_success)

lemma rotate_keeps_handle:
  assumes "fileHandle lr = Some f" "rotate lib lr w = (r, lr1, w1)"
  shows "\<exists>f1. fileHandle lr1 = Some f1"
  using assms unfolding rotate_def Let_def
  by (auto simp: openFile_def split: option.splits prod.splits if_splits sum.splits)

lemma Write_keeps_handle:
  assumes "fileHandle lr = Some f" "Write lib lr p w = (n, r, lr1, w1)"
  shows "\<exists>f1. fileHandle lr1 = Some f1"
proof -
  obtain rc lrc wc where c: "checkRotation lib lr w = (rc, lrc, wc)"
    by (cases "checkRotation lib lr w") auto
  with assms(1) have "\<exists>f1. fileHandle lrc = Some f1"
    by (auto simp: checkRotation_def Let_def split: if_splits option.splits prod.splits
             dest: rotate_keeps_handle)
  with c assms(2) show ?thesis
    by (auto simp: Write_def split: option.splits prod.splits)
qed

lemma Close_keeps_handle:
  assumes "fileHandle lr = Some f" "Close lr w = (r, lr1, w1)"
  shows "\<exists>f1. fileHandle lr1 = Some f1"
  using assms by (auto simp: Close_def split: option.splits prod.splits)


section \<open>After Close\<close>


lemma file_Close_closed:
  "hclosed f \<Longrightarrow> file_Close f w = (Some (PathError ''close'' (hname f) ErrClosed), f, logEv (OpClose (hname f)) w)"
  by (simp add: file_Close_def)

lemma rotate_closed:
  "fileHandle lr = Some f \<Longrightarrow> hclosed f \<Longrightarrow>
   rotate lib lr w = (Some (ErrorfW ''failed to close log file'' (PathError ''close'' (hname f) ErrClosed)), lr,
                      logEv (OpClose (hname f)) (logEv EvRotate w))"
  by (simp add: rotate_def file_Close_closed Let_def)

lemma Write_closed:
  assumes "fileHandle lr = Some f" "hclosed f"
  shows "\<exists>e w1. Write lib lr p w = (0, Some e, lr, w1) \<and> errors_Is e ErrClosed \<and> files w1 = files w"
  using assms
  by (simp add: Write_def checkRotation_def rotate_closed file_Write_def Let_def logEv_simps)

lemma Close_closes:
  assumes "fileHandle lr = Some f" "Close lr w = (r, lr1, w1)"
  shows "lr1 = lr\<lparr>fileHandle := Some (f\<lparr>hclosed := True\<rparr>)\<rparr> \<and> files w1 = files w"
  using assms
  by (auto simp add: Close_def file_Close_def Let_def logEv_simps split: if_splits)

lemma Close_second:
  assumes "fileHandle lr = Some f" "hclosed f"
  shows "Close lr w = (Some (PathError ''close'' (hname f) ErrClosed), lr, logEv (OpClose (hname f)) w)"
  using assms by (simp add: Close_def file_Close_closed)

text \<open>
  C5. A writer that holds a handle (every writer that \<open>NewLogRotator\<close> returns does, and no
  operation drops the handle) is closed with \<open>Close\<close>, whatever \<open>Close\<close> returns. Every
  \<open>Write\<close> after that, in whatever state the world is by then, writes no byte, returns an
  error that is \<^verbatim>\<open>os.ErrClosed\<close> (file already closed), leaves every file as it was and
  leaves the writer as it was, so that the same holds for the write after it.
\<close>

theorem Write_after_Close_fails:
  assumes "fileHandle lr = Some f" and "Close lr w = (r, lr1, w1)"
  shows "\<exists>e w3. Write lib lr1 p w2 = (0, Some e, lr1, w3) \<and> errors_Is e ErrClosed
                \<and> files w3 = files w2"
proof -
  from Close_closes [OF assms] have "fileHandle lr1 = Some (f\<lparr>hclosed := True\<rparr>)" by simp
  moreover have "hclosed (f\<lparr>hclosed := True\<rparr>)" by simp
  ultimately show ?thesis by (rule Write_closed)
qed

theorem Write_after_Close_fails_witness:
  "fileHandle demoRotator = Some demoHandle
   \<and> Close demoRotator demoWorld
       = (None, demoRotator\<lparr>fileHandle := Some (demoHandle\<lparr>hclosed := True\<rparr>)\<rparr>,
          logEv (OpClose ''app.log'') demoWorld)
   \<and> (\<exists>e w3. Write demoLib (demoRotator\<lparr>fileHandle := Some (demoHandle\<lparr>hclosed := True\<rparr>)\<rparr>)
                 [1, 2, 3] demoWorld
               = (0, Some e, demoRotator\<lparr>fileHandle := Some (demoHandle\<lparr>hclosed := True\<rparr>)\<rparr>, w3)
             \<and> errors_Is e ErrClosed \<and> files w3 = files demoWorld)"
proof -
  have h1: "fileHandle demoRotator = Some demoHandle"
    by (simp add: demoRotator_def)
  have h2: "Close demoRotator demoWorld
       = (None, demoRotator\<lparr>fileHandle := Some (demoHandle\<lparr>hclosed := True\<rparr>)\<rparr>,
          logEv (OpClose ''app.log'') demoWorld)"
    by (simp add: Close_def file_Close_def demoRotator_def demoHandle_def demoWorld_def Let_def)
  from Write_after_Close_fails [OF h1 h2, of demoLib "[1, 2, 3]" demoWorld] h1 h2
  show ?thesis by simp
qed

text \<open>
  C10. \<open>Close\<close> does not clear the handle. After a \<open>Close\<close> that returned no error the
  writer still refers to its handle, which is now closed; a second \<open>Close\<close>, in whatever
  state the world is by then, returns an error (\<^verbatim>\<open>os.ErrClosed\<close>) and not nil; and
  \<open>GetStats\<close> reports \<^verbatim>\<open>file_open\<close> as true.
\<close>

theorem Close_not_idempotent:
  assumes "fileHandle lr = Some f" and "Close lr w = (None, lr1, w1)"
  shows "(\<exists>f1. fileHandle lr1 = Some f1 \<and> hclosed f1)
       \<and> (\<exists>e lr2 w3. Close lr1 w2 = (Some e, lr2, w3) \<and> errors_Is e ErrClosed)
       \<and> GetStats lr1 ''file_open'' = Some (VBool True)"
proof -
  from Close_closes [OF assms] have h: "fileHandle lr1 = Some (f\<lparr>hclosed := True\<rparr>)" by simp
  have c: "hclosed (f\<lparr>hclosed := True\<rparr>)" by simp
  from h c have "\<exists>f1. fileHandle lr1 = Some f1 \<and> hclosed f1" by blast
  moreover from Close_second [OF h c, of w2]
  have "\<exists>e lr2 w3. Close lr1 w2 = (Some e, lr2, w3) \<and> errors_Is e ErrClosed" by simp
  moreover from h have "GetStats lr1 ''file_open'' = Some (VBool True)"
    by (simp add: GetStats_def)
  ultimately show ?thesis by blast
qed

theorem Close_not_idempotent_witness:
  "fileHandle demoRotator = Some demoHandle
   \<and> Close demoRotator demoWorld
       = (None, demoRotator\<lparr>fileHandle := Some (demoHandle\<lparr>hclosed := True\<rparr>)\<rparr>,
          logEv (OpClose ''app.log'') demoWorld)
   \<and> (\<exists>e lr2 w3. Close (demoRotator\<lparr>fileHandle := Some (demoHandle\<lparr>hclosed := True\<rparr>)\<rparr>)
                     (logEv (OpClose ''app.log'') demoWorld) = (Some e, lr2, w3)
                 \<and> errors_Is e ErrClosed)
   \<and> GetStats (demoRotator\<lparr>fileHandle := Some (demoHandle\<lparr>hclosed := True\<rparr>)\<rparr>) ''file_open''
       = Some (VBool True)"
proof -
  have h1: "fileHandle demoRotator = Some demoHandle"
    by (simp add: demoRotator_def)
  have h2: "Close demoRotator demoWorld
       = (None, demoRotator\<lparr>fileHandle := Some (demoHandle\<lparr>hclosed := True\<rparr>)\<rparr>,
          logEv (OpClose ''app.log'') demoWorld)"
    by (simp add: Close_def file_Close_def demoRotator_def demoHandle_def demoWorld_def Let_def)
  from Close_not_idempotent [OF h1 h2, of "logEv (OpClose ''app.log'') demoWorld"] h1 h2
  show ?thesis by simp
qed


section \<open>Partial writes\<close>


lemma map_of_put_path: "map_of (put_path p fi fs) p = Some fi"
  by (simp add: put_path_def)

lemma file_Write_short:
  assumes "\<not> hclosed f" "OpWrite (hname f) \<notin> faults w" "map_of (files w) (hname f) = Some fi"
    and "space w = Some k" "k < length p"
  shows "\<exists>w2. file_Write (Some f) p w = (k, Some (PathError ''write'' (hname f) ErrNoSpace), w2)
      \<and> map_option fsize (map_of (files w2) (hname f)) = Some (fsize fi + int k)"
  using assms
  by (simp add: file_Write_def Let_def logEv_simps append_bytes_def map_of_put_path min_def)

text \<open>
  C4, as the code has it. When the device has room for only \<open>k\<close> of the bytes of a
  \<open>Write\<close>, the call returns \<open>k\<close>, the number of bytes appended to the file, with the
  error of the write; the writer is returned as the rotation check left it, so the tracked
  byte count does not advance.
\<close>

theorem Write_partial_count_not_tracked:
  assumes "checkRotation lib lr w = (None, lr1, w1)"
    and "fileHandle lr1 = Some f" and "\<not> hclosed f" and "OpWrite (hname f) \<notin> faults w1"
    and "map_of (files w1) (hname f) = Some fi"
    and "space w1 = Some k" and "k < length p"
  shows "\<exists>w2. Write lib lr p w = (k, Some (PathError ''write'' (hname f) ErrNoSpace), lr1, w2)
      \<and> map_option fsize (map_of (files w2) (hname f)) = Some (fsize fi + int k)"
proof -
  from file_Write_short [OF assms(3-7)] obtain w2 where
    a: "file_Write (Some f) p w1 = (k, Some (PathError ''write'' (hname f) ErrNoSpace), w2)"
    and b: "map_option fsize (map_of (files w2) (hname f)) = Some (fsize fi + int k)"
    by blast
  from assms(1,2) a have "Write lib lr p w = (k, Some (PathError ''write'' (hname f) ErrNoSpace), lr1, w2)"
    by (simp add: Write_def)
  with b show ?thesis by blast
qed

lemma demo_checkRotation_none:
  "checkRotation demoLib demoRotator (demoWorld\<lparr>space := Some 3\<rparr>) = (None, demoRotator, demoWorld\<lparr>space := Some 3\<rparr>)"
  by (simp add: checkRotation_def demoRotator_def demoWorld_def Let_def)

theorem Write_partial_count_not_tracked_witness:
  "checkRotation demoLib demoRotator (demoWorld\<lparr>space := Some 3\<rparr>)
     = (None, demoRotator, demoWorld\<lparr>space := Some 3\<rparr>)
   \<and> fileHandle demoRotator = Some demoHandle \<and> \<not> hclosed demoHandle
   \<and> OpWrite (hname demoHandle) \<notin> faults (demoWorld\<lparr>space := Some 3\<rparr>)
   \<and> map_of (files (demoWorld\<lparr>space := Some 3\<rparr>)) (hname demoHandle) = Some \<lparr>fsize = 10, modTime = 5\<rparr>
   \<and> space (demoWorld\<lparr>space := Some 3\<rparr>) = Some 3 \<and> 3 < length [1, 2, 3, 4, 5 :: 8 word]
   \<and> (\<exists>w2. Write demoLib demoRotator [1, 2, 3, 4, 5] (demoWorld\<lparr>space := Some 3\<rparr>)
              = (3, Some (PathError ''write'' (hname demoHandle) ErrNoSpace), demoRotator, w2)
          \<and> map_option fsize (map_of (files w2) (hname demoHandle)) = Some (10 + int 3))"
proof -
  have h2: "fileHandle demoRotator = Some demoHandle" by (simp add: demoRotator_def)
  have h3: "\<not> hclosed demoHandle" by (simp add: demoHandle_def)
  have h4: "OpWrite (hname demoHandle) \<notin> faults (demoWorld\<lparr>space := Some 3\<rparr>)"
    by (simp add: demoWorld_def)
  have h5: "map_of (files (demoWorld\<lparr>space := Some 3\<rparr>)) (hname demoHandle) = Some \<lparr>fsize = 10, modTime = 5\<rparr>"
    by (simp add: demoWorld_def demoHandle_def)
  have h6: "space (demoWorld\<lparr>space := Some 3\<rparr>) = Some 3" by simp
  have h7: "3 < length [1, 2, 3, 4, 5 :: 8 word]" by simp
  from Write_partial_count_not_tracked [OF demo_checkRotation_none h2 h3 h4 h5 h6 h7]
    demo_checkRotation_none h2 h3 h4 h5 h6 h7
  show ?thesis by simp
qed

text \<open>
  C4 as stated fails: the device has room for 3 of 5 bytes; \<open>Write\<close> returns 3 and an
  error, the file has grown from 10 to 13 bytes, and the tracked byte count is still 10.
\<close>

theorem Write_partial_counterexample:
  "Write demoLib demoRotator [1, 2, 3, 4, 5] (demoWorld\<lparr>space := Some 3\<rparr>)
     = (3, Some (PathError ''write'' ''app.log'' ErrNoSpace), demoRotator,
        \<lparr>files = [(''app.log'', \<lparr>fsize = 13, modTime = 100\<rparr>)], now = 100, faults = {},
         space = Some 0, trace = [OpWrite ''app.log'']\<rparr>)
   \<and> fileSize demoRotator = 10
   \<and> fileSize demoRotator \<noteq> 10 + 3"
  by (simp add: Write_def checkRotation_def file_Write_def Let_def logEv_def
      append_bytes_def put_path_def delete_path_def demoRotator_def demoHandle_def demoWorld_def)


section \<open>The daily trigger\<close>


lemma time_Truncate_mono:
  assumes "0 < d" "a \<le> b"
  shows "time_Truncate a d \<le> time_Truncate b d"
proof -
  have "a - a mod d = d * (a div d)" "b - b mod d = d * (b div d)"
    by (simp_all add: minus_mod_eq_mult_div)
  moreover from assms have "a div d \<le> b div d" by (simp add: zdiv_mono1)
  ultimately show ?thesis using assms by (simp add: time_Truncate_def mult_left_mono)
qed

lemma day_positive: "0 < 24 * hour_ns"
  by (simp add: hour_ns_def)

lemma checkRotation_daily:
  assumes "rotateDaily lr" "time_Truncate (now w) (24 * hour_ns) > rotateTime lr"
    and "rotate lib lr w = (rr, lrr, wr)"
  shows "checkRotation lib lr w =
     (rr, (if rr = None then lrr\<lparr>rotateTime := time_Truncate (now w) (24 * hour_ns)\<rparr> else lrr), wr)"
  using assms by (simp add: checkRotation_def Let_def split: option.splits)

lemma checkRotation_not_daily:
  assumes "\<not> (rotateDaily lr \<and> time_Truncate (now w) (24 * hour_ns) > rotateTime lr)"
  shows "checkRotation lib lr w = (if fileSize lr \<ge> maxSize lr then rotate lib lr w else (None, lr, w))"
  using assms by (auto simp add: checkRotation_def Let_def)

lemma Write_after_check:
  assumes "checkRotation lib lr w = (r1, lr1, w1)" "Write lib lr p w = (n, r, lr', w')"
  shows "rotations w' = rotations w1 \<and> rotateTime lr' = rotateTime lr1 \<and> rotateDaily lr' = rotateDaily lr1
       \<and> maxSize lr' = maxSize lr1
       \<and> (r1 \<noteq> None \<longrightarrow> n = 0 \<and> r = r1 \<and> lr' = lr1 \<and> w' = w1)"
proof (cases r1)
  case (Some e)
  with assms show ?thesis by (simp add: Write_def)
next
  case None
  obtain n2 r2 w2 where fw: "file_Write (fileHandle lr1) p w1 = (n2, r2, w2)"
    by (cases "file_Write (fileHandle lr1) p w1") auto
  from file_Write_quietD [OF fw] have "rotations w2 = rotations w1" by (rule quiet_rotations)
  with None assms fw show ?thesis by (auto simp: Write_def split: option.splits)
qed

text \<open>
  C7. A \<open>Write\<close> on a writer with daily rotation enabled; \<open>rotate lib lr w\<close> is the
  outcome that a rotation cycle has in that state. If the current day is after the reference
  day, the \<open>Write\<close> runs exactly one rotation cycle, whatever the tracked size is. If that
  cycle succeeds, the reference day becomes the current day. If it fails, the \<open>Write\<close>
  returns the cycle's error with no byte written and the reference day is not advanced, so
  at any later time the current day is still after it and the next \<open>Write\<close> fires the
  daily trigger again. If the current day is not after the reference day, the reference day
  stays and a rotation cycle runs exactly when the size trigger fires. In every case at
  most one rotation cycle runs.
\<close>

theorem daily_trigger:
  assumes "rotateDaily lr" and "Write lib lr p w = (n, r, lr', w')"
    and "rotate lib lr w = (rr, lrr, wr)"
  shows "(time_Truncate (now w) (24 * hour_ns) > rotateTime lr \<longrightarrow>
            rotations w' = rotations w + 1
          \<and> (rr = None \<longrightarrow> rotateTime lr' = time_Truncate (now w) (24 * hour_ns))
          \<and> (rr \<noteq> None \<longrightarrow> n = 0 \<and> r = rr \<and> rotateTime lr' = rotateTime lr \<and> rotateDaily lr'
                \<and> (\<forall>w2::world. now w \<le> now w2 \<longrightarrow> time_Truncate (now w2) (24 * hour_ns) > rotateTime lr')))
       \<and> (\<not> time_Truncate (now w) (24 * hour_ns) > rotateTime lr \<longrightarrow>
            rotateTime lr' = rotateTime lr
          \<and> rotations w' = rotations w + (if fileSize lr \<ge> maxSize lr then 1 else 0))
       \<and> rotations w' \<le> rotations w + 1"
proof -
  let ?day = "time_Truncate (now w) (24 * hour_ns)"
  note rot = rotate_rotations [OF assms(3)] rotate_rotator [OF assms(3)]
  show ?thesis
  proof (cases "?day > rotateTime lr")
    case True
    let ?lr1 = "if rr = None then lrr\<lparr>rotateTime := ?day\<rparr> else lrr"
    from checkRotation_daily [OF assms(1) True assms(3)]
    have c: "checkRotation lib lr w = (rr, ?lr1, wr)" .
    note wa = Write_after_check [OF c assms(2)]
    have later: "\<forall>w2::world. now w \<le> now w2 \<longrightarrow> time_Truncate (now w2) (24 * hour_ns) > rotateTime lr"
    proof (intro allI impI)
      fix w2 assume "now w \<le> now w2"
      from time_Truncate_mono [OF day_positive this] True
      show "time_Truncate (now w2) (24 * hour_ns) > rotateTime lr" by simp
    qed
    from True wa rot assms(1) later show ?thesis by (cases rr) auto
  next
    case False
    then have nd: "\<not> (rotateDaily lr \<and> ?day > rotateTime lr)" by simp
    show ?thesis
    proof (cases "fileSize lr \<ge> maxSize lr")
      case True
      with checkRotation_not_daily [OF nd, of lib] assms(3)
      have c: "checkRotation lib lr w = (rr, lrr, wr)" by simp
      from Write_after_check [OF c assms(2)] rot True False show ?thesis by simp
    next
      case f: False
      with checkRotation_not_daily [OF nd, of lib]
      have c: "checkRotation lib lr w = (None, lr, w)" by simp
      from Write_after_check [OF c assms(2)] f False show ?thesis by simp
    qed
  qed
qed

theorem daily_trigger_witness:
  "rotateDaily dailyRotator
   \<and> Write demoLib dailyRotator [1, 2, 3] renameFaultWorld
       = (0, Some (ErrorfW ''failed to rename log file'' (PathError ''rename'' ''app.log'' ErrIO)),
          dailyRotator\<lparr>fileHandle := Some (demoHandle\<lparr>hclosed := True\<rparr>)\<rparr>,
          renameFaultWorld\<lparr>trace := [EvRotate, OpClose ''app.log'',
             OpRename ''app.log'' ''app-2024-03-09-140507.log'']\<rparr>)
   \<and> rotate demoLib dailyRotator renameFaultWorld
       = (Some (ErrorfW ''failed to rename log file'' (PathError ''rename'' ''app.log'' ErrIO)),
          dailyRotator\<lparr>fileHandle := Some (demoHandle\<lparr>hclosed := True\<rparr>)\<rparr>,
          renameFaultWorld\<lparr>trace := [EvRotate, OpClose ''app.log'',
             OpRename ''app.log'' ''app-2024-03-09-140507.log'']\<rparr>)
   \<and> time_Truncate (now renameFaultWorld) (24 * hour_ns) > rotateTime dailyRotator
   \<and> rotations (renameFaultWorld\<lparr>trace := [EvRotate, OpClose ''app.log'',
             OpRename ''app.log'' ''app-2024-03-09-140507.log'']\<rparr>) = rotations renameFaultWorld + 1
   \<and> rotateTime (dailyRotator\<lparr>fileHandle := Some (demoHandle\<lparr>hclosed := True\<rparr>)\<rparr>)
       = rotateTime dailyRotator
   \<and> now renameFaultWorld \<le> now (renameFaultWorld\<lparr>now := 86400000000999\<rparr>)
   \<and> time_Truncate (now (renameFaultWorld\<lparr>now := 86400000000999\<rparr>)) (24 * hour_ns)
         > rotateTime (dailyRotator\<lparr>fileHandle := Some (demoHandle\<lparr>hclosed := True\<rparr>)\<rparr>)"
proof -
  have h1: "rotateDaily dailyRotator"
    by (simp add: dailyRotator_def)
  have h3: "rotate demoLib dailyRotator renameFaultWorld
       = (Some (ErrorfW ''failed to rename log file'' (PathError ''rename'' ''app.log'' ErrIO)),
          dailyRotator\<lparr>fileHandle := Some (demoHandle\<lparr>hclosed := True\<rparr>)\<rparr>,
          renameFaultWorld\<lparr>trace := [EvRotate, OpClose ''app.log'',
             OpRename ''app.log'' ''app-2024-03-09-140507.log'']\<rparr>)"
    by (simp add: rotate_def generateRotatedName_def demoLib_def dailyRotator_def demoRotator_def
        renameFaultWorld_def demoWorld_def demoHandle_def filepath_Ext_def strings_TrimSuffix_def
        strings_HasSuffix_def time_Format_def appendInt_def utod.simps digit_char_def Let_def
        logEv_def file_Close_def os_Rename_def)
  have h4: "time_Truncate (now renameFaultWorld) (24 * hour_ns) > rotateTime dailyRotator"
    by (simp add: time_Truncate_def hour_ns_def renameFaultWorld_def dailyRotator_def demoRotator_def)
  have h2: "Write demoLib dailyRotator [1, 2, 3] renameFaultWorld
       = (0, Some (ErrorfW ''failed to rename log file'' (PathError ''rename'' ''app.log'' ErrIO)),
          dailyRotator\<lparr>fileHandle := Some (demoHandle\<lparr>hclosed := True\<rparr>)\<rparr>,
          renameFaultWorld\<lparr>trace := [EvRotate, OpClose ''app.log'',
             OpRename ''app.log'' ''app-2024-03-09-140507.log'']\<rparr>)"
    using h1 h4 by (simp add: Write_def checkRotation_def h3)
  have h5: "now renameFaultWorld \<le> now (renameFaultWorld\<lparr>now := 86400000000999\<rparr>)"
    by (simp add: renameFaultWorld_def)
  from daily_trigger [OF h1 h2 h3] h4
  have "\<forall>w2::world. now renameFaultWorld \<le> now w2 \<longrightarrow>
         time_Truncate (now w2) (24 * hour_ns)
           > rotateTime (dailyRotator\<lparr>fileHandle := Some (demoHandle\<lparr>hclosed := True\<rparr>)\<rparr>)"
    by simp
  with h5 have h6: "time_Truncate (now (renameFaultWorld\<lparr>now := 86400000000999\<rparr>)) (24 * hour_ns)
         > rotateTime (dailyRotator\<lparr>fileHandle := Some (demoHandle\<lparr>hclosed := True\<rparr>)\<rparr>)"
    by blast
  from daily_trigger [OF h1 h2 h3] h1 h2 h3 h4 h5 h6 show ?thesis by simp
qed

section \<open>The size ceiling 0\<close>

lemma Write_not_daily:
  assumes "\<not> rotateDaily lr" and "Write lib lr p w = (n, r, lr', w')"
  shows "rotations w' = rotations w + (if fileSize lr \<ge> maxSize lr then 1 else 0)
       \<and> maxSize lr' = maxSize lr \<and> rotateDaily lr' = rotateDaily lr"
proof -
  from assms(1) have nd: "\<not> (rotateDaily lr \<and> time_Truncate (now w) (24 * hour_ns) > rotateTime lr)"
    by simp
  show ?thesis
  proof (cases "fileSize lr \<ge> maxSize lr")
    case True
    obtain rr lrr wr where rot: "rotate lib lr w = (rr, lrr, wr)"
      by (cases "rotate lib lr w") auto
    with checkRotation_not_daily [OF nd, of lib] True
    have c: "checkRotation lib lr w = (rr, lrr, wr)" by simp
    from Write_after_check [OF c assms(2)] rotate_rotations [OF rot] rotate_rotator [OF rot] True
    show ?thesis by simp
  next
    case False
    with checkRotation_not_daily [OF nd, of lib]
    have c: "checkRotation lib lr w = (None, lr, w)" by simp
    from Write_after_check [OF c assms(2)] False show ?thesis by simp
  qed
qed

text \<open>
  C3, as the code has it. A size ceiling of 0 in the configuration selects the default of
  100 MiB (104857600 bytes). For every later state \<open>lr\<close> of a writer constructed with
  ceiling 0 and daily rotation disabled (the operations keep the ceiling and the daily flag),
  a \<open>Write\<close> runs a rotation cycle exactly when the tracked size has reached 104857600 bytes,
  and keeps the ceiling and the flag.
\<close>

theorem zero_MaxSize_selects_default:
  assumes "MaxSize config = 0" and "\<not> RotateDaily config"
    and "NewLogRotator lib config w0 = (Inr lr0, w1)"
    and "maxSize lr = maxSize lr0" and "rotateDaily lr = rotateDaily lr0"
    and "Write lib lr p w = (n, r, lr', w')"
  shows "maxSize lr0 = 104857600 \<and> \<not> rotateDaily lr0
       \<and> rotations w' = rotations w + (if fileSize lr \<ge> 104857600 then 1 else 0)
       \<and> maxSize lr' = maxSize lr0 \<and> rotateDaily lr' = rotateDaily lr0"
proof -
  from NewLogRotator_success [OF assms(3)] assms(1,2)
  have a: "maxSize lr0 = 104857600" "\<not> rotateDaily lr0" by simp_all
  with assms(5) have "\<not> rotateDaily lr" by simp
  from Write_not_daily [OF this assms(6)] a assms(4,5) show ?thesis by simp
qed

lemma demo_NewLogRotator:
  "NewLogRotator demoLib zeroConfig bigWorld
     = (Inr \<lparr>filePath = ''app.log'', maxSize = 104857600, maxAge = 604800000000000,
             maxBackups = 5, compress = False, rotateDaily = False, rotateTime = 0,
             fileHandle = Some \<lparr>hname = ''app.log'', hclosed = False\<rparr>,
             fileSize = 104857600\<rparr>,
        bigWorld\<lparr>trace := [OpMkdirAll ''.'', OpOpenFile ''app.log'', OpFstat ''app.log'']\<rparr>)"
  by (simp add: NewLogRotator_def zeroConfig_def bigWorld_def demoLib_def Let_def hour_ns_def
      time_Truncate_def os_MkdirAll_def logEv_def openFile_def os_OpenFile_def file_Stat_def
      exists_path_def)

lemma demo_big_Write:
  "Write demoLib \<lparr>filePath = ''app.log'', maxSize = 104857600, maxAge = 604800000000000,
             maxBackups = 5, compress = False, rotateDaily = False, rotateTime = 0,
             fileHandle = Some \<lparr>hname = ''app.log'', hclosed = False\<rparr>,
             fileSize = 104857600\<rparr>
      [1] (bigWorld\<lparr>trace := [OpMkdirAll ''.'', OpOpenFile ''app.log'', OpFstat ''app.log'']\<rparr>)
   = (1, None,
      \<lparr>filePath = ''app.log'', maxSize = 104857600, maxAge = 604800000000000,
        maxBackups = 5, compress = False, rotateDaily = False, rotateTime = 0,
        fileHandle = Some \<lparr>hname = ''app.log'', hclosed = False\<rparr>, fileSize = 1\<rparr>,
      \<lparr>files = [(''app.log'', \<lparr>fsize = 1, modTime = 100\<rparr>),
                (''app-2024-03-09-140507.log'', \<lparr>fsize = 104857600, modTime = 5\<rparr>)],
        now = 100, faults = {}, space = None,
        trace = [OpMkdirAll ''.'', OpOpenFile ''app.log'', OpFstat ''app.log'',
                 EvRotate, OpClose ''app.log'',
                 OpRename ''app.log'' ''app-2024-03-09-140507.log'',
                 OpGlob ''app-*.log*'', OpStat ''app-2024-03-09-140507.log'',
                 OpOpenFile ''app.log'', OpFstat ''app.log'', OpWrite ''app.log'']\<rparr>)"
  by code_simp

theorem zero_MaxSize_selects_default_witness:
  "MaxSize zeroConfig = 0 \<and> \<not> RotateDaily zeroConfig
   \<and> NewLogRotator demoLib zeroConfig bigWorld
     = (Inr \<lparr>filePath = ''app.log'', maxSize = 104857600, maxAge = 604800000000000,
             maxBackups = 5, compress = False, rotateDaily = False, rotateTime = 0,
             fileHandle = Some \<lparr>hname = ''app.log'', hclosed = False\<rparr>,
             fileSize = 104857600\<rparr>,
        bigWorld\<lparr>trace := [OpMkdirAll ''.'', OpOpenFile ''app.log'', OpFstat ''app.log'']\<rparr>)
   \<and> rotations \<lparr>files = [(''app.log'', \<lparr>fsize = 1, modTime = 100\<rparr>),
                (''app-2024-03-09-140507.log'', \<lparr>fsize = 104857600, modTime = 5\<rparr>)],
        now = 100, faults = {}, space = None,
        trace = [OpMkdirAll ''.'', OpOpenFile ''app.log'', OpFstat ''app.log'',
                 EvRotate, OpClose ''app.log'',
                 OpRename ''app.log'' ''app-2024-03-09-140507.log'',
                 OpGlob ''app-*.log*'', OpStat ''app-2024-03-09-140507.log'',
                 OpOpenFile ''app.log'', OpFstat ''app.log'', OpWrite ''app.log'']\<rparr>
       = rotations (bigWorld\<lparr>trace := [OpMkdirAll ''.'', OpOpenFile ''app.log'', OpFstat ''app.log'']\<rparr>) + 1"
proof -
  have h1: "MaxSize zeroConfig = 0" and h2: "\<not> RotateDaily zeroConfig"
    by (simp_all add: zeroConfig_def)
  from zero_MaxSize_selects_default [OF h1 h2 demo_NewLogRotator refl refl demo_big_Write]
    h1 h2 demo_NewLogRotator
  show ?thesis by simp
qed

text \<open>
  C3 as stated fails: a writer is constructed with size ceiling 0 and daily rotation
  disabled on a log file that already holds 104857600 bytes; the first \<open>Write\<close> of one byte
  runs a rotation cycle, which renames the log file.
\<close>

theorem zero_MaxSize_counterexample:
  "MaxSize zeroConfig = 0 \<and> \<not> RotateDaily zeroConfig
   \<and> fst (NewLogRotator demoLib zeroConfig bigWorld)
     = Inr \<lparr>filePath = ''app.log'', maxSize = 104857600, maxAge = 604800000000000,
             maxBackups = 5, compress = False, rotateDaily = False, rotateTime = 0,
             fileHandle = Some \<lparr>hname = ''app.log'', hclosed = False\<rparr>,
             fileSize = 104857600\<rparr>
   \<and> trace (snd (snd (snd (Write demoLib \<lparr>filePath = ''app.log'', maxSize = 104857600, maxAge = 604800000000000,
             maxBackups = 5, compress = False, rotateDaily = False, rotateTime = 0,
             fileHandle = Some \<lparr>hname = ''app.log'', hclosed = False\<rparr>,
             fileSize = 104857600\<rparr>
      [1] (snd (NewLogRotator demoLib zeroConfig bigWorld))))))
     = [OpMkdirAll ''.'', OpOpenFile ''app.log'', OpFstat ''app.log'',
                 EvRotate, OpClose ''app.log'',
                 OpRename ''app.log'' ''app-2024-03-09-140507.log'',
                 OpGlob ''app-*.log*'', OpStat ''app-2024-03-09-140507.log'',
                 OpOpenFile ''app.log'', OpFstat ''app.log'', OpWrite ''app.log'']"
  by (simp add: demo_NewLogRotator demo_big_Write) (simp add: zeroConfig_def)


section \<open>Rotate without an open file\<close>

text \<open>
  C6, as the code has it. When the writer holds no handle at all, \<open>Rotate\<close> is \<open>openFile\<close>
  (after the mark of the cycle's start in the trace). If opening and stating the target path
  do not fail, it succeeds with an open handle on the target path, which exists afterwards,
  the tracked size is the size of that file, and the only calls made are the open and the
  stat: no rename, no cleanup.
\<close>

theorem Rotate_without_handle_opens:
  assumes "fileHandle lr = None"
  shows "Rotate lib lr w = openFile lr (logEv EvRotate w)
       \<and> (OpOpenFile (filePath lr) \<notin> faults w \<and> OpFstat (filePath lr) \<notin> faults w \<longrightarrow>
            (\<exists>fi w'. Rotate lib lr w
                 = (None, lr\<lparr>fileHandle := Some \<lparr>hname = filePath lr, hclosed = False\<rparr>,
                             fileSize := fsize fi\<rparr>, w')
               \<and> map_of (files w') (filePath lr) = Some fi
               \<and> trace w' = trace w @ [EvRotate, OpOpenFile (filePath lr), OpFstat (filePath lr)]))"
proof -
  from assms have a: "Rotate lib lr w = openFile lr (logEv EvRotate w)"
    by (simp add: Rotate_def rotate_def Let_def)
  have "\<exists>fi w'. openFile lr (logEv EvRotate w)
                 = (None, lr\<lparr>fileHandle := Some \<lparr>hname = filePath lr, hclosed = False\<rparr>,
                             fileSize := fsize fi\<rparr>, w')
               \<and> map_of (files w') (filePath lr) = Some fi
               \<and> trace w' = trace w @ [EvRotate, OpOpenFile (filePath lr), OpFstat (filePath lr)]"
    if "OpOpenFile (filePath lr) \<notin> faults w" "OpFstat (filePath lr) \<notin> faults w"
  proof (cases "map_of (files w) (filePath lr)")
    case None
    with that show ?thesis
      by (simp add: openFile_def os_OpenFile_def file_Stat_def exists_path_def Let_def
          logEv_simps put_path_def)
  next
    case (Some fi)
    with that show ?thesis
      by (simp add: openFile_def os_OpenFile_def file_Stat_def exists_path_def Let_def
          logEv_simps)
  qed
  with a show ?thesis by simp
qed

theorem Rotate_without_handle_opens_witness:
  "fileHandle (demoRotator\<lparr>fileHandle := None\<rparr>) = None
   \<and> OpOpenFile ''app.log'' \<notin> faults demoWorld \<and> OpFstat ''app.log'' \<notin> faults demoWorld
   \<and> Rotate demoLib (demoRotator\<lparr>fileHandle := None\<rparr>) demoWorld
       = openFile (demoRotator\<lparr>fileHandle := None\<rparr>) (logEv EvRotate demoWorld)
   \<and> (\<exists>fi w'. Rotate demoLib (demoRotator\<lparr>fileHandle := None\<rparr>) demoWorld
                 = (None, demoRotator\<lparr>fileHandle := Some \<lparr>hname = ''app.log'', hclosed = False\<rparr>,
                             fileSize := fsize fi\<rparr>, w')
               \<and> map_of (files w') ''app.log'' = Some fi
               \<and> trace w' = trace demoWorld @ [EvRotate, OpOpenFile ''app.log'', OpFstat ''app.log''])"
proof -
  let ?lr = "demoRotator\<lparr>fileHandle := None\<rparr>"
  have h1: "fileHandle ?lr = None" by simp
  have h2: "OpOpenFile ''app.log'' \<notin> faults demoWorld \<and> OpFstat ''app.log'' \<notin> faults demoWorld"
    by (simp add: demoWorld_def)
  have h3: "filePath ?lr = ''app.log''" by (simp add: demoRotator_def)
  note T = Rotate_without_handle_opens [OF h1, of demoLib demoWorld]
  from T have A: "Rotate demoLib ?lr demoWorld = openFile ?lr (logEv EvRotate demoWorld)"
    by (rule conjunct1)
  have h2': "OpOpenFile (filePath ?lr) \<notin> faults demoWorld \<and> OpFstat (filePath ?lr) \<notin> faults demoWorld"
    by (simp add: demoWorld_def)
  from T [THEN conjunct2, THEN mp, OF h2']
  have B: "\<exists>fi w'. Rotate demoLib ?lr demoWorld
                 = (None, demoRotator\<lparr>fileHandle := Some \<lparr>hname = ''app.log'', hclosed = False\<rparr>,
                             fileSize := fsize fi\<rparr>, w')
               \<and> map_of (files w') ''app.log'' = Some fi
               \<and> trace w' = trace demoWorld @ [EvRotate, OpOpenFile ''app.log'', OpFstat ''app.log'']"
    by (simp add: demoRotator_def)
  from h1 h2 A B show ?thesis by blast
qed

text \<open>
  C6 as stated fails after an explicit \<open>Close\<close>: the writer still holds its handle, so
  \<open>Rotate\<close> tries to close it again, returns that error, and opens nothing.
\<close>

theorem Rotate_after_Close_counterexample:
  "Close demoRotator demoWorld
     = (None, demoRotator\<lparr>fileHandle := Some (demoHandle\<lparr>hclosed := True\<rparr>)\<rparr>,
        demoWorld\<lparr>trace := [OpClose ''app.log'']\<rparr>)
   \<and> Rotate demoLib (demoRotator\<lparr>fileHandle := Some (demoHandle\<lparr>hclosed := True\<rparr>)\<rparr>)
        (demoWorld\<lparr>trace := [OpClose ''app.log'']\<rparr>)
     = (Some (ErrorfW ''failed to close log file'' (PathError ''close'' ''app.log'' ErrClosed)),
        demoRotator\<lparr>fileHandle := Some (demoHandle\<lparr>hclosed := True\<rparr>)\<rparr>,
        demoWorld\<lparr>trace := [OpClose ''app.log'', EvRotate, OpClose ''app.log'']\<rparr>)
   \<and> \<not> isOpen (demoRotator\<lparr>fileHandle := Some (demoHandle\<lparr>hclosed := True\<rparr>)\<rparr>)"
  by (simp add: Close_def Rotate_def rotate_def file_Close_def Let_def logEv_def isOpen_def
      demoRotator_def demoHandle_def demoWorld_def)


section \<open>A failed compression\<close>


text \<open>
  C1, as the code has it. In a rotation cycle with compression enabled where closing and
  renaming succeed and the compression step fails, \<open>rotate\<close> returns the compression
  error, wrapped, and ends the cycle there: the log file is not opened again, the writer
  keeps its closed handle, so it is not open, and every later \<open>Write\<close> fails with
  \<^verbatim>\<open>os.ErrClosed\<close> and writes nothing.
\<close>

theorem compress_failure_aborts_cycle:
  assumes "fileHandle lr = Some f"
    and "file_Close f (logEv EvRotate w) = (None, f1, w1)"
    and "os_Rename (filePath lr) (generateRotatedName lib lr w1) w1 = (None, w2)"
    and "compress lr"
    and "compressFile lib (generateRotatedName lib lr w1) w2 = (Some e, w3)"
  shows "rotate lib lr w
           = (Some (ErrorfW ''failed to compress log file'' e), lr\<lparr>fileHandle := Some f1\<rparr>, w3)
       \<and> \<not> isOpen (lr\<lparr>fileHandle := Some f1\<rparr>)
       \<and> (\<exists>evs. trace w3 = trace w @ evs \<and> (\<forall>q. OpOpenFile q \<notin> set evs))
       \<and> (\<forall>p w4. \<exists>e' w5. Write lib (lr\<lparr>fileHandle := Some f1\<rparr>) p w4
                           = (0, Some e', lr\<lparr>fileHandle := Some f1\<rparr>, w5)
                         \<and> errors_Is e' ErrClosed \<and> files w5 = files w4)"
proof -
  from file_Close_ok [OF assms(2)] have c: "hclosed f1" by simp
  from assms have a: "rotate lib lr w
           = (Some (ErrorfW ''failed to compress log file'' e), lr\<lparr>fileHandle := Some f1\<rparr>, w3)"
    by (simp add: rotate_def Let_def)
  from c have b: "\<not> isOpen (lr\<lparr>fileHandle := Some f1\<rparr>)" by (simp add: isOpen_def)
  from assms(4,5) have "(if compress lr then compressFile lib (generateRotatedName lib lr w1) w2 else (None, w2))
      = (Some e, w3)" by simp
  from rotate_trace_to_cleanup [OF assms(2,3) this]
  have t: "\<exists>evs. trace w3 = trace w @ evs \<and> (\<forall>q. OpOpenFile q \<notin> set evs)" .
  have h: "fileHandle (lr\<lparr>fileHandle := Some f1\<rparr>) = Some f1" by simp
  have "\<forall>p w4. \<exists>e' w5. Write lib (lr\<lparr>fileHandle := Some f1\<rparr>) p w4
                           = (0, Some e', lr\<lparr>fileHandle := Some f1\<rparr>, w5)
                         \<and> errors_Is e' ErrClosed \<and> files w5 = files w4"
    using Write_closed [OF h c] by blast
  with a b t show ?thesis by blast
qed

lemma gz_name: "generateRotatedName demoLib gzRotator w = ''app-2024-03-09-140507.log''"
  by (simp add: generateRotatedName_def demoLib_def gzRotator_def demoRotator_def filepath_Ext_def
      strings_TrimSuffix_def strings_HasSuffix_def time_Format_def appendInt_def utod.simps
      digit_char_def Let_def)

theorem compress_failure_aborts_cycle_witness:
  "fileHandle gzRotator = Some demoHandle
   \<and> file_Close demoHandle (logEv EvRotate gzFaultWorld)
       = (None, demoHandle\<lparr>hclosed := True\<rparr>, gzFaultWorld\<lparr>trace := [EvRotate, OpClose ''app.log'']\<rparr>)
   \<and> os_Rename (filePath gzRotator) ''app-2024-03-09-140507.log''
         (gzFaultWorld\<lparr>trace := [EvRotate, OpClose ''app.log'']\<rparr>)
       = (None, gzFaultWorld\<lparr>files := [(''app-2024-03-09-140507.log'', \<lparr>fsize = 10, modTime = 5\<rparr>)],
             trace := [EvRotate, OpClose ''app.log'', OpRename ''app.log'' ''app-2024-03-09-140507.log'']\<rparr>)
   \<and> compress gzRotator
   \<and> compressFile demoLib ''app-2024-03-09-140507.log''
         (gzFaultWorld\<lparr>files := [(''app-2024-03-09-140507.log'', \<lparr>fsize = 10, modTime = 5\<rparr>)],
             trace := [EvRotate, OpClose ''app.log'', OpRename ''app.log'' ''app-2024-03-09-140507.log'']\<rparr>)
       = (Some (PathError ''open'' ''app-2024-03-09-140507.log.gz'' ErrIO),
          gzFaultWorld\<lparr>files := [(''app-2024-03-09-140507.log'', \<lparr>fsize = 10, modTime = 5\<rparr>)],
             trace := [EvRotate, OpClose ''app.log'', OpRename ''app.log'' ''app-2024-03-09-140507.log'',
                       OpOpen ''app-2024-03-09-140507.log'', OpCreate ''app-2024-03-09-140507.log.gz'']\<rparr>)
   \<and> rotate demoLib gzRotator gzFaultWorld
       = (Some (ErrorfW ''failed to compress log file''
                 (PathError ''open'' ''app-2024-03-09-140507.log.gz'' ErrIO)),
          gzRotator\<lparr>fileHandle := Some (demoHandle\<lparr>hclosed := True\<rparr>)\<rparr>,
          gzFaultWorld\<lparr>files := [(''app-2024-03-09-140507.log'', \<lparr>fsize = 10, modTime = 5\<rparr>)],
             trace := [EvRotate, OpClose ''app.log'', OpRename ''app.log'' ''app-2024-03-09-140507.log'',
                       OpOpen ''app-2024-03-09-140507.log'', OpCreate ''app-2024-03-09-140507.log.gz'']\<rparr>)
   \<and> \<not> isOpen (gzRotator\<lparr>fileHandle := Some (demoHandle\<lparr>hclosed := True\<rparr>)\<rparr>)"
proof -
  let ?w1 = "gzFaultWorld\<lparr>trace := [EvRotate, OpClose ''app.log'']\<rparr>"
  let ?w2 = "gzFaultWorld\<lparr>files := [(''app-2024-03-09-140507.log'', \<lparr>fsize = 10, modTime = 5\<rparr>)],
             trace := [EvRotate, OpClose ''app.log'', OpRename ''app.log'' ''app-2024-03-09-140507.log'']\<rparr>"
  have h1: "fileHandle gzRotator = Some demoHandle"
    by (simp add: gzRotator_def demoRotator_def)
  have h2: "file_Close demoHandle (logEv EvRotate gzFaultWorld) = (None, demoHandle\<lparr>hclosed := True\<rparr>, ?w1)"
    by (simp add: file_Close_def logEv_def demoHandle_def gzFaultWorld_def demoWorld_def Let_def)
  have h3: "os_Rename (filePath gzRotator) ''app-2024-03-09-140507.log'' ?w1 = (None, ?w2)"
    by (simp add: os_Rename_def logEv_def gzRotator_def demoRotator_def gzFaultWorld_def demoWorld_def
        Let_def put_path_def delete_path_def)
  have h4: "compress gzRotator" by (simp add: gzRotator_def)
  have h5: "compressFile demoLib ''app-2024-03-09-140507.log'' ?w2
       = (Some (PathError ''open'' ''app-2024-03-09-140507.log.gz'' ErrIO),
          gzFaultWorld\<lparr>files := [(''app-2024-03-09-140507.log'', \<lparr>fsize = 10, modTime = 5\<rparr>)],
             trace := [EvRotate, OpClose ''app.log'', OpRename ''app.log'' ''app-2024-03-09-140507.log'',
                       OpOpen ''app-2024-03-09-140507.log'', OpCreate ''app-2024-03-09-140507.log.gz'']\<rparr>)"
    by (simp add: compressFile_def strings_HasSuffix_def os_Open_def os_Create_def logEv_def
        gzFaultWorld_def demoWorld_def Let_def)
  from compress_failure_aborts_cycle [of gzRotator demoHandle gzFaultWorld _ ?w1 demoLib ?w2,
      unfolded gz_name, OF h1 h2 h3 h4 h5]
    h1 h2 h3 h4 h5
  show ?thesis by simp
qed

text \<open>
  C1 as stated fails: compression is enabled and creating the compressed file fails. The
  cycle ends with the error; the writer is left with its closed handle, the log file has been
  renamed away and is not opened again, and the next \<open>Write\<close> fails.
\<close>

theorem compress_failure_counterexample:
  "rotate demoLib gzRotator gzFaultWorld
     = (Some (ErrorfW ''failed to compress log file''
               (PathError ''open'' ''app-2024-03-09-140507.log.gz'' ErrIO)),
        gzRotator\<lparr>fileHandle := Some (demoHandle\<lparr>hclosed := True\<rparr>)\<rparr>,
        gzFaultWorld\<lparr>files := [(''app-2024-03-09-140507.log'', \<lparr>fsize = 10, modTime = 5\<rparr>)],
           trace := [EvRotate, OpClose ''app.log'', OpRename ''app.log'' ''app-2024-03-09-140507.log'',
                     OpOpen ''app-2024-03-09-140507.log'', OpCreate ''app-2024-03-09-140507.log.gz'']\<rparr>)
   \<and> \<not> isOpen (gzRotator\<lparr>fileHandle := Some (demoHandle\<lparr>hclosed := True\<rparr>)\<rparr>)
   \<and> fst (snd (Write demoLib (gzRotator\<lparr>fileHandle := Some (demoHandle\<lparr>hclosed := True\<rparr>)\<rparr>) [1, 2, 3]
        (gzFaultWorld\<lparr>files := [(''app-2024-03-09-140507.log'', \<lparr>fsize = 10, modTime = 5\<rparr>)],
           trace := [EvRotate, OpClose ''app.log'', OpRename ''app.log'' ''app-2024-03-09-140507.log'',
                     OpOpen ''app-2024-03-09-140507.log'', OpCreate ''app-2024-03-09-140507.log.gz'']\<rparr>)))
     = Some (PathError ''write'' ''app.log'' ErrClosed)"
  by (simp add: rotate_def generateRotatedName_def demoLib_def filepath_Ext_def
      strings_TrimSuffix_def time_Format_def appendInt_def utod.simps digit_char_def
      Write_def checkRotation_def file_Write_def compressFile_def
      strings_HasSuffix_def os_Open_def os_Create_def os_Rename_def file_Close_def logEv_def
      put_path_def delete_path_def isOpen_def Let_def time_Truncate_def hour_ns_def
      gzRotator_def demoRotator_def demoHandle_def gzFaultWorld_def demoWorld_def)


section \<open>The place of the cleanup in the cycle\<close>


text \<open>
  C2, as the code has it. A rotation cycle that has closed, renamed and (if enabled)
  compressed without error runs the cleanup next, before the log file is opened again: up
  to the end of the cleanup the cycle has listed the rotated files and has not opened the
  log file. If the cleanup returns no error, the rest of the cycle is \<open>openFile\<close> in the
  world the cleanup left. If the cleanup returns an error, the cycle ends with that error,
  wrapped; the log file is not opened and the writer is not open.
\<close>

theorem cleanup_runs_before_reopen:
  assumes "fileHandle lr = Some f"
    and "file_Close f (logEv EvRotate w) = (None, f1, w1)"
    and "os_Rename (filePath lr) (generateRotatedName lib lr w1) w1 = (None, w2)"
    and "(if compress lr then compressFile lib (generateRotatedName lib lr w1) w2 else (None, w2))
           = (None, w3)"
    and "cleanup lib lr w3 = (rc, w4)"
  shows "(\<exists>evs. trace w4 = trace w @ evs \<and> OpGlob (cleanupPattern lib lr) \<in> set evs
              \<and> (\<forall>q. OpOpenFile q \<notin> set evs))
       \<and> (rc = None \<longrightarrow> rotate lib lr w = openFile (lr\<lparr>fileHandle := Some f1\<rparr>) w4)
       \<and> (\<forall>e. rc = Some e \<longrightarrow>
             rotate lib lr w
               = (Some (ErrorfW ''failed to cleanup old files'' e), lr\<lparr>fileHandle := Some f1\<rparr>, w4)
           \<and> \<not> isOpen (lr\<lparr>fileHandle := Some f1\<rparr>))"
proof -
  from rotate_trace_to_cleanup [OF assms(2,3,4)] obtain evs3 where
    t3: "trace w3 = trace w @ evs3" "\<forall>q. OpOpenFile q \<notin> set evs3" by blast
  from calm_after_logEv [OF cleanup_after_glob [OF assms(5)]] obtain evs4 where
    t4: "trace w4 = trace w3 @ OpGlob (cleanupPattern lib lr) # evs4" "\<forall>q. OpOpenFile q \<notin> set evs4"
    by blast
  from t3 t4 have "trace w4 = trace w @ (evs3 @ OpGlob (cleanupPattern lib lr) # evs4)
      \<and> OpGlob (cleanupPattern lib lr) \<in> set (evs3 @ OpGlob (cleanupPattern lib lr) # evs4)
      \<and> (\<forall>q. OpOpenFile q \<notin> set (evs3 @ OpGlob (cleanupPattern lib lr) # evs4))"
    by simp
  then have a: "\<exists>evs. trace w4 = trace w @ evs \<and> OpGlob (cleanupPattern lib lr) \<in> set evs
              \<and> (\<forall>q. OpOpenFile q \<notin> set evs)" by blast
  note r = rotate_to_cleanup [OF assms(1-4)]
  from r assms(5) have b: "rc = None \<longrightarrow> rotate lib lr w = openFile (lr\<lparr>fileHandle := Some f1\<rparr>) w4"
    by simp
  from file_Close_ok [OF assms(2)] have "hclosed f1" by simp
  then have c: "\<not> isOpen (lr\<lparr>fileHandle := Some f1\<rparr>)" by (simp add: isOpen_def)
  from r assms(5) have d: "\<forall>e. rc = Some e \<longrightarrow>
             rotate lib lr w
               = (Some (ErrorfW ''failed to cleanup old files'' e), lr\<lparr>fileHandle := Some f1\<rparr>, w4)"
    by simp
  from a b c d show ?thesis by blast
qed

lemma bracket_name:
  "generateRotatedName demoLib bracketRotator w = ''a[-2024-03-09-140507.log''"
  by (simp add: generateRotatedName_def demoLib_def bracketRotator_def demoRotator_def filepath_Ext_def
      strings_TrimSuffix_def strings_HasSuffix_def time_Format_def appendInt_def utod.simps
      digit_char_def Let_def)

theorem cleanup_runs_before_reopen_witness:
  "fileHandle bracketRotator = Some \<lparr>hname = ''a[.log'', hclosed = False\<rparr>
   \<and> file_Close \<lparr>hname = ''a[.log'', hclosed = False\<rparr> (logEv EvRotate bracketWorld)
       = (None, \<lparr>hname = ''a[.log'', hclosed = True\<rparr>,
          bracketWorld\<lparr>trace := [EvRotate, OpClose ''a[.log'']\<rparr>)
   \<and> os_Rename (filePath bracketRotator) ''a[-2024-03-09-140507.log''
         (bracketWorld\<lparr>trace := [EvRotate, OpClose ''a[.log'']\<rparr>)
       = (None, bracketWorld\<lparr>files := [(''a[-2024-03-09-140507.log'', \<lparr>fsize = 10, modTime = 5\<rparr>)],
             trace := [EvRotate, OpClose ''a[.log'', OpRename ''a[.log'' ''a[-2024-03-09-140507.log'']\<rparr>)
   \<and> \<not> compress bracketRotator
   \<and> cleanup demoLib bracketRotator
         (bracketWorld\<lparr>files := [(''a[-2024-03-09-140507.log'', \<lparr>fsize = 10, modTime = 5\<rparr>)],
             trace := [EvRotate, OpClose ''a[.log'', OpRename ''a[.log'' ''a[-2024-03-09-140507.log'']\<rparr>)
       = (Some (Sentinel ErrBadPattern),
          bracketWorld\<lparr>files := [(''a[-2024-03-09-140507.log'', \<lparr>fsize = 10, modTime = 5\<rparr>)],
             trace := [EvRotate, OpClose ''a[.log'', OpRename ''a[.log'' ''a[-2024-03-09-140507.log'',
                       OpGlob ''a[-*.log*'']\<rparr>)
   \<and> rotate demoLib bracketRotator bracketWorld
       = (Some (ErrorfW ''failed to cleanup old files'' (Sentinel ErrBadPattern)),
          bracketRotator\<lparr>fileHandle := Some \<lparr>hname = ''a[.log'', hclosed = True\<rparr>\<rparr>,
          bracketWorld\<lparr>files := [(''a[-2024-03-09-140507.log'', \<lparr>fsize = 10, modTime = 5\<rparr>)],
             trace := [EvRotate, OpClose ''a[.log'', OpRename ''a[.log'' ''a[-2024-03-09-140507.log'',
                       OpGlob ''a[-*.log*'']\<rparr>)
   \<and> \<not> isOpen (bracketRotator\<lparr>fileHandle := Some \<lparr>hname = ''a[.log'', hclosed = True\<rparr>\<rparr>)"
proof -
  let ?f = "\<lparr>hname = ''a[.log'', hclosed = False\<rparr>"
  let ?f1 = "\<lparr>hname = ''a[.log'', hclosed = True\<rparr>"
  let ?w1 = "bracketWorld\<lparr>trace := [EvRotate, OpClose ''a[.log'']\<rparr>"
  let ?w2 = "bracketWorld\<lparr>files := [(''a[-2024-03-09-140507.log'', \<lparr>fsize = 10, modTime = 5\<rparr>)],
             trace := [EvRotate, OpClose ''a[.log'', OpRename ''a[.log'' ''a[-2024-03-09-140507.log'']\<rparr>"
  let ?w4 = "bracketWorld\<lparr>files := [(''a[-2024-03-09-140507.log'', \<lparr>fsize = 10, modTime = 5\<rparr>)],
             trace := [EvRotate, OpClose ''a[.log'', OpRename ''a[.log'' ''a[-2024-03-09-140507.log'',
                       OpGlob ''a[-*.log*'']\<rparr>"
  have h1: "fileHandle bracketRotator = Some ?f"
    by (simp add: bracketRotator_def demoRotator_def)
  have h2: "file_Close ?f (logEv EvRotate bracketWorld) = (None, ?f1, ?w1)"
    by (simp add: file_Close_def logEv_def bracketWorld_def demoWorld_def Let_def)
  have h3: "os_Rename (filePath bracketRotator) ''a[-2024-03-09-140507.log'' ?w1 = (None, ?w2)"
    by (simp add: os_Rename_def logEv_def bracketRotator_def demoRotator_def bracketWorld_def
        demoWorld_def Let_def put_path_def delete_path_def)
  have h4: "\<not> compress bracketRotator" by (simp add: bracketRotator_def demoRotator_def)
  then have h4': "(if compress bracketRotator
                   then compressFile demoLib ''a[-2024-03-09-140507.log'' ?w2 else (None, ?w2)) = (None, ?w2)"
    by simp
  have h5: "cleanup demoLib bracketRotator ?w2 = (Some (Sentinel ErrBadPattern), ?w4)"
    by (simp add: cleanup_def cleanupPattern_def filepath_Glob_def demoLib_def filepath_Ext_def
        strings_TrimSuffix_def strings_HasSuffix_def logEv_def bracketRotator_def demoRotator_def
        bracketWorld_def demoWorld_def Let_def)
  from cleanup_runs_before_reopen [of bracketRotator ?f bracketWorld ?f1 ?w1 demoLib ?w2 ?w2 _ ?w4,
      unfolded bracket_name, OF h1 h2 h3 h4' h5]
    h1 h2 h3 h4 h5
  show ?thesis by simp
qed

text \<open>
  C2 as stated fails. The glob pattern built from the path \<^verbatim>\<open>a[.log\<close> is malformed,
  so the cleanup returns an error: the cycle ends with the log file renamed away and not
  opened again, and the writer is not open. And in a cycle without any error the listing
  of the cleanup comes before the log file is opened.
\<close>

theorem cleanup_failure_counterexample:
  "rotate demoLib bracketRotator bracketWorld
     = (Some (ErrorfW ''failed to cleanup old files'' (Sentinel ErrBadPattern)),
        bracketRotator\<lparr>fileHandle := Some \<lparr>hname = ''a[.log'', hclosed = True\<rparr>\<rparr>,
        bracketWorld\<lparr>files := [(''a[-2024-03-09-140507.log'', \<lparr>fsize = 10, modTime = 5\<rparr>)],
           trace := [EvRotate, OpClose ''a[.log'', OpRename ''a[.log'' ''a[-2024-03-09-140507.log'',
                     OpGlob ''a[-*.log*'']\<rparr>)
   \<and> \<not> isOpen (bracketRotator\<lparr>fileHandle := Some \<lparr>hname = ''a[.log'', hclosed = True\<rparr>\<rparr>)
   \<and> trace (snd (snd (rotate demoLib demoRotator demoWorld)))
     = [EvRotate, OpClose ''app.log'', OpRename ''app.log'' ''app-2024-03-09-140507.log'',
        OpGlob ''app-*.log*'', OpStat ''app-2024-03-09-140507.log'',
        OpOpenFile ''app.log'', OpFstat ''app.log'']"
  by (simp add: rotate_def generateRotatedName_def demoLib_def filepath_Ext_def
      strings_TrimSuffix_def time_Format_def appendInt_def utod.simps digit_char_def
      strings_HasSuffix_def os_Rename_def file_Close_def logEv_def
      cleanup_def cleanupPattern_def filepath_Glob_def glob_matches_def os_Stat_def
      removeExcess.simps openFile_def os_OpenFile_def file_Stat_def exists_path_def
      put_path_def delete_path_def isOpen_def Let_def
      bracketRotator_def bracketWorld_def demoRotator_def demoHandle_def demoWorld_def)


section \<open>The name of the rotated file\<close>


lemma ext_scan_empty_iff:
  "ext_scan rs acc = [] \<longleftrightarrow> CHR ''.'' \<notin> set (takeWhile (\<lambda>c. c \<noteq> CHR ''/'') rs)"
  by (induction rs arbitrary: acc) auto

lemma filepath_Ext_empty_iff:
  "filepath_Ext p = [] \<longleftrightarrow> CHR ''.'' \<notin> set (takeWhile (\<lambda>c. c \<noteq> CHR ''/'') (rev p))"
  by (simp add: filepath_Ext_def ext_scan_empty_iff)

lemma validCivil_stampForm: "validCivil c \<Longrightarrow> stampForm (time_Format c)"
  by (rule stampForm_time_Format) (simp_all add: validCivil_def)

text \<open>
  C9, as the code has it. The rotated name is the base, a dash, the time stamp and the
  extension, where base and extension split the configured path: the extension is empty
  exactly when the last element of the path has no dot, and otherwise starts at the last dot
  of that element. For calendar fields in range (a year of at most four digits) the time
  stamp has the shape \<^verbatim>\<open>YYYY-MM-DD-HHMMSS\<close>. A compression step that returns no error
  leaves the file under the rotated name with \<^verbatim>\<open>.gz\<close> appended, and no file under the
  rotated name itself, unless the extension of the configured path is \<^verbatim>\<open>.gz\<close>: then
  the compression step does nothing at all, and the rotated file keeps its name.
\<close>

theorem rotated_file_name:
  "generateRotatedName lib lr w
     = strings_TrimSuffix (filePath lr) (filepath_Ext (filePath lr)) @ ''-''
       @ time_Format (civilTime lib (now w)) @ filepath_Ext (filePath lr)
   \<and> strings_TrimSuffix (filePath lr) (filepath_Ext (filePath lr)) @ filepath_Ext (filePath lr)
       = filePath lr
   \<and> (filepath_Ext (filePath lr) = []
        \<longleftrightarrow> CHR ''.'' \<notin> set (takeWhile (\<lambda>c. c \<noteq> CHR ''/'') (rev (filePath lr))))
   \<and> (filepath_Ext (filePath lr) = []
        \<or> (\<exists>r. filepath_Ext (filePath lr) = CHR ''.'' # r \<and> CHR ''.'' \<notin> set r \<and> CHR ''/'' \<notin> set r))
   \<and> (validCivil (civilTime lib (now w)) \<longrightarrow> stampForm (time_Format (civilTime lib (now w))))
   \<and> (filepath_Ext (filePath lr) \<noteq> ''.gz''
        \<longrightarrow> compressFile lib (generateRotatedName lib lr w) w2 = (None, w3)
        \<longrightarrow> exists_path w3 (generateRotatedName lib lr w @ ''.gz'')
            \<and> \<not> exists_path w3 (generateRotatedName lib lr w))
   \<and> (filepath_Ext (filePath lr) = ''.gz''
        \<longrightarrow> compressFile lib (generateRotatedName lib lr w) w2 = (None, w2))"
proof -
  have a: "generateRotatedName lib lr w
     = strings_TrimSuffix (filePath lr) (filepath_Ext (filePath lr)) @ ''-''
       @ time_Format (civilTime lib (now w)) @ filepath_Ext (filePath lr)"
    by (simp add: generateRotatedName_def Let_def)
  note b = TrimSuffix_Ext [of "filePath lr"]
  note c = filepath_Ext_empty_iff [of "filePath lr"]
  note d = filepath_Ext_shape [of "filePath lr"]
  have e: "validCivil (civilTime lib (now w)) \<longrightarrow> stampForm (time_Format (civilTime lib (now w)))"
    by (simp add: validCivil_stampForm)
  have f: "filepath_Ext (filePath lr) \<noteq> ''.gz''
        \<longrightarrow> compressFile lib (generateRotatedName lib lr w) w2 = (None, w3)
        \<longrightarrow> exists_path w3 (generateRotatedName lib lr w @ ''.gz'')
            \<and> \<not> exists_path w3 (generateRotatedName lib lr w)"
    using compressFile_result [of lib "generateRotatedName lib lr w" w2 w3]
      rotated_name_gz [of lib lr w] by blast
  have g: "filepath_Ext (filePath lr) = ''.gz''
        \<longrightarrow> compressFile lib (generateRotatedName lib lr w) w2 = (None, w2)"
    using compressFile_skip [of "generateRotatedName lib lr w" lib w2]
      rotated_name_gz [of lib lr w] by blast
  from a b c d e f g show ?thesis by blast
qed

theorem rotated_file_name_witness:
  "generateRotatedName demoLib demoRotator demoWorld = ''app-2024-03-09-140507.log''
   \<and> filepath_Ext (filePath demoRotator) = ''.log''
   \<and> strings_TrimSuffix (filePath demoRotator) ''.log'' = ''app''
   \<and> validCivil (civilTime demoLib (now demoWorld))
   \<and> stampForm ''2024-03-09-140507''
   \<and> filepath_Ext (filePath demoRotator) \<noteq> ''.gz''
   \<and> compressFile demoLib ''app-2024-03-09-140507.log''
        (demoWorld\<lparr>files := [(''app-2024-03-09-140507.log'', \<lparr>fsize = 10, modTime = 5\<rparr>)]\<rparr>)
      = (None, demoWorld\<lparr>files := [(''app-2024-03-09-140507.log.gz'', \<lparr>fsize = 25, modTime = 100\<rparr>)],
           trace := [OpOpen ''app-2024-03-09-140507.log'', OpCreate ''app-2024-03-09-140507.log.gz'',
                     OpCopy ''app-2024-03-09-140507.log'' ''app-2024-03-09-140507.log.gz'',
                     OpRemove ''app-2024-03-09-140507.log'']\<rparr>)
   \<and> exists_path (demoWorld\<lparr>files := [(''app-2024-03-09-140507.log.gz'', \<lparr>fsize = 25, modTime = 100\<rparr>)],
           trace := [OpOpen ''app-2024-03-09-140507.log'', OpCreate ''app-2024-03-09-140507.log.gz'',
                     OpCopy ''app-2024-03-09-140507.log'' ''app-2024-03-09-140507.log.gz'',
                     OpRemove ''app-2024-03-09-140507.log'']\<rparr>) ''app-2024-03-09-140507.log.gz''
   \<and> filepath_Ext (filePath gzPathRotator) = ''.gz''
   \<and> compressFile demoLib (generateRotatedName demoLib gzPathRotator gzPathWorld) gzPathWorld
      = (None, gzPathWorld)"
proof -
  let ?w2 = "demoWorld\<lparr>files := [(''app-2024-03-09-140507.log'', \<lparr>fsize = 10, modTime = 5\<rparr>)]\<rparr>"
  let ?w3 = "demoWorld\<lparr>files := [(''app-2024-03-09-140507.log.gz'', \<lparr>fsize = 25, modTime = 100\<rparr>)],
           trace := [OpOpen ''app-2024-03-09-140507.log'', OpCreate ''app-2024-03-09-140507.log.gz'',
                     OpCopy ''app-2024-03-09-140507.log'' ''app-2024-03-09-140507.log.gz'',
                     OpRemove ''app-2024-03-09-140507.log'']\<rparr>"
  have e: "filepath_Ext (filePath demoRotator) = ''.log''"
    by (simp add: filepath_Ext_def demoRotator_def)
  have t: "strings_TrimSuffix (filePath demoRotator) ''.log'' = ''app''"
    by (simp add: strings_TrimSuffix_def strings_HasSuffix_def demoRotator_def)
  have v: "validCivil (civilTime demoLib (now demoWorld))"
    by (simp add: validCivil_def demoLib_def)
  have tf: "time_Format (civilTime demoLib (now demoWorld)) = ''2024-03-09-140507''"
    by (simp add: demoLib_def time_Format_def appendInt_def utod.simps digit_char_def Let_def)
  have c: "compressFile demoLib ''app-2024-03-09-140507.log'' ?w2 = (None, ?w3)"
    by (simp add: compressFile_def strings_HasSuffix_def os_Open_def os_Create_def io_Copy_def
        os_Remove_def logEv_def exists_path_def put_path_def delete_path_def demoLib_def
        demoWorld_def Let_def)
  have e2: "filepath_Ext (filePath gzPathRotator) = ''.gz''"
    by (simp add: filepath_Ext_def gzPathRotator_def)
  note T1 = rotated_file_name [of demoLib demoRotator demoWorld ?w2 ?w3]
  note T2 = rotated_file_name [of demoLib gzPathRotator gzPathWorld gzPathWorld gzPathWorld]
  from T1 e t tf have n: "generateRotatedName demoLib demoRotator demoWorld = ''app-2024-03-09-140507.log''"
    by simp
  from T1 v tf have s: "stampForm ''2024-03-09-140507''" by simp
  from T1 e n c have x: "exists_path ?w3 ''app-2024-03-09-140507.log.gz''" by simp
  from T2 e2 have y: "compressFile demoLib (generateRotatedName demoLib gzPathRotator gzPathWorld) gzPathWorld
      = (None, gzPathWorld)" by blast
  from n e t v s c x e2 y show ?thesis by simp
qed

text \<open>
  C9 as stated fails for a configured path with the extension \<^verbatim>\<open>.gz\<close>: with
  compression enabled the cycle succeeds, the rotated file is
  \<^verbatim>\<open>app-2024-03-09-140507.gz\<close>, and no file with \<^verbatim>\<open>.gz\<close> appended to that name exists.
\<close>

theorem rotated_gz_counterexample:
  "compress gzPathRotator
   \<and> rotate demoLib gzPathRotator gzPathWorld
     = (None,
        gzPathRotator\<lparr>fileSize := 0\<rparr>,
        \<lparr>files = [(''app.gz'', \<lparr>fsize = 0, modTime = 100\<rparr>),
                  (''app-2024-03-09-140507.gz'', \<lparr>fsize = 10, modTime = 5\<rparr>)],
         now = 100, faults = {}, space = None,
         trace = [EvRotate, OpClose ''app.gz'', OpRename ''app.gz'' ''app-2024-03-09-140507.gz'',
                  OpGlob ''app-*.gz*'', OpStat ''app-2024-03-09-140507.gz'',
                  OpOpenFile ''app.gz'', OpFstat ''app.gz'']\<rparr>)
   \<and> \<not> exists_path \<lparr>files = [(''app.gz'', \<lparr>fsize = 0, modTime = 100\<rparr>),
                  (''app-2024-03-09-140507.gz'', \<lparr>fsize = 10, modTime = 5\<rparr>)],
         now = 100, faults = {}, space = None,
         trace = [EvRotate, OpClose ''app.gz'', OpRename ''app.gz'' ''app-2024-03-09-140507.gz'',
                  OpGlob ''app-*.gz*'', OpStat ''app-2024-03-09-140507.gz'',
                  OpOpenFile ''app.gz'', OpFstat ''app.gz'']\<rparr> ''app-2024-03-09-140507.gz.gz''"
  by (simp add: rotate_def generateRotatedName_def demoLib_def filepath_Ext_def
      strings_TrimSuffix_def time_Format_def appendInt_def utod.simps digit_char_def
      strings_HasSuffix_def os_Rename_def file_Close_def logEv_def compressFile_def
      cleanup_def cleanupPattern_def filepath_Glob_def glob_matches_def os_Stat_def
      removeExcess.simps openFile_def os_OpenFile_def file_Stat_def exists_path_def
      put_path_def delete_path_def Let_def
      gzPathRotator_def gzPathWorld_def demoRotator_def demoHandle_def demoWorld_def)


section \<open>The count bound of the retention\<close>


lemma cleanup_count_pass:
  assumes srt: "sortsByModTime (sort_Slice lib)"
    and nb: "\<not> badPattern lib (cleanupPattern lib lr)"
    and many: "int (length (rotatedFiles lib lr w)) > maxBackups lr"
    and young: "\<forall>f \<in> set (rotatedFiles lib lr w). \<not> snd f < now w - maxAge lr"
    and ok: "\<forall>f \<in> set (rotatedFiles lib lr w). OpRemove (fst f) \<notin> faults w"
    and run: "cleanup lib lr w = (r, w')"
  shows "r = None
       \<and> rotatedFiles lib lr w'
           = filter (\<lambda>f. fst f \<notin> fst ` set (take (nat (int (length (rotatedFiles lib lr w)) - maxBackups lr))
                                                   (sort_Slice lib (rotatedFiles lib lr w))))
               (rotatedFiles lib lr w)"
proof -
  let ?L = "rotatedFiles lib lr w"
  let ?S = "sort_Slice lib ?L"
  let ?g = "logEv (OpGlob (cleanupPattern lib lr)) w"
  let ?ms = "glob_matches lib (cleanupPattern lib lr) (files w)"
  from srt have ms: "mset ?S = mset ?L" by (simp add: sortsByModTime_def)
  then have len: "length ?S = length ?L" by (rule mset_eq_length)
  from ms have st: "set ?S = set ?L" by (rule mset_eq_setD)
  obtain fs w2 where sa: "statAll ?ms ?g = (fs, w2)" by (cases "statAll ?ms ?g")
  from statAll_listing [OF sa] nb
  have fs: "fs = ?L" and w2: "files w2 = files w" "faults w2 = faults w" "now w2 = now w"
    by (simp_all add: rotatedFiles_def logEv_simps)
  let ?n = "nat (int (length ?L) - maxBackups lr)"
  from young st w2 have "\<forall>f \<in> set ?S. \<not> snd f < now w2 - maxAge lr" by simp
  then have ro: "removeOld (now w2 - maxAge lr) ?S w2 = w2" by (rule removeOld_none)
  have re: "removeExcess 0 (int (length ?S) - maxBackups lr) ?S w2
      = removeEach (map fst (take ?n ?S)) w2"
    by (simp add: removeExcess_fold len)
  from nb sa fs many len ro re run
  have res: "r = None" "w' = removeEach (map fst (take ?n ?S)) w2"
    by (simp_all add: cleanup_def filepath_Glob_def Let_def)
  have "\<forall>p \<in> set (map fst (take ?n ?S)). OpRemove p \<notin> faults w2"
  proof
    fix p assume "p \<in> set (map fst (take ?n ?S))"
    then obtain f where "f \<in> set (take ?n ?S)" "p = fst f" by auto
    with st have "f \<in> set ?L" "p = fst f" by (auto dest: in_set_takeD)
    with ok w2 show "OpRemove p \<notin> faults w2" by simp
  qed
  from removeEach_files [OF this] res w2
  have "files w' = filter (\<lambda>e. fst e \<notin> fst ` set (take ?n ?S)) (files w)" "faults w' = faults w"
    by simp_all
  from rotatedFiles_after_removal [OF this] res show ?thesis by simp
qed

text \<open>
  C8. The cleanup of a writer with a bound of \<open>K \<ge> 0\<close> backups, with a \<^verbatim>\<open>sort.Slice\<close> that
  sorts, in a world with more than \<open>K\<close> rotated files, none of them older than the maximum
  age, where no removal of a rotated file fails: the cleanup returns no error, exactly \<open>K\<close>
  of the rotated files are left, and every rotated file that is gone was modified no later
  than every one that is left.
\<close>

theorem retention_count_bound:
  assumes "sortsByModTime (sort_Slice lib)"
    and "0 \<le> maxBackups lr"
    and "int (length (rotatedFiles lib lr w)) > maxBackups lr"
    and "\<forall>f \<in> set (rotatedFiles lib lr w). \<not> snd f < now w - maxAge lr"
    and "\<forall>f \<in> set (rotatedFiles lib lr w). OpRemove (fst f) \<notin> faults w"
    and "cleanup lib lr w = (r, w')"
  shows "r = None
       \<and> int (length (rotatedFiles lib lr w')) = maxBackups lr
       \<and> set (rotatedFiles lib lr w') \<subseteq> set (rotatedFiles lib lr w)
       \<and> (\<forall>k \<in> set (rotatedFiles lib lr w').
            \<forall>d \<in> set (rotatedFiles lib lr w) - set (rotatedFiles lib lr w'). snd d \<le> snd k)"
proof -
  let ?L = "rotatedFiles lib lr w"
  let ?S = "sort_Slice lib ?L"
  let ?n = "nat (int (length ?L) - maxBackups lr)"
  from assms(2,3) have "?L \<noteq> []" by auto
  then have nb: "\<not> badPattern lib (cleanupPattern lib lr)" by (auto simp: rotatedFiles_def)
  from cleanup_count_pass [OF assms(1) nb assms(3-6)]
  have r: "r = None" and k: "rotatedFiles lib lr w' = filter (\<lambda>f. fst f \<notin> fst ` set (take ?n ?S)) ?L"
    by simp_all
  from assms(1) have ms: "mset ?S = mset ?L" and so: "sorted_wrt (\<lambda>a b. \<not> snd b < snd a) ?S"
    by (simp_all add: sortsByModTime_def)
  from ms have len: "length ?S = length ?L" by (rule mset_eq_length)
  note kf = kept_files [OF ms distinct_rotatedFiles, of ?n]
  from kf(1) k len assms(2,3) have a: "int (length (rotatedFiles lib lr w')) = maxBackups lr"
    by simp
  from k have b: "set (rotatedFiles lib lr w') \<subseteq> set ?L" by auto
  have c: "\<forall>k \<in> set (rotatedFiles lib lr w'). \<forall>d \<in> set ?L - set (rotatedFiles lib lr w'). snd d \<le> snd k"
  proof (intro ballI)
    fix x d assume "x \<in> set (rotatedFiles lib lr w')" "d \<in> set ?L - set (rotatedFiles lib lr w')"
    with k kf(2,3) have "x \<in> set (drop ?n ?S)" "d \<in> set (take ?n ?S)" by auto
    with sorted_take_drop [OF so] show "snd d \<le> snd x" by blast
  qed
  from r a b c show ?thesis by blast
qed

lemma demo_sorts: "sortsByModTime (sort_Slice demoLib)"
proof -
  have "sorted_wrt (\<lambda>a b. \<not> snd b < snd a) (sort_key snd xs)" for xs :: "(path \<times> int) list"
  proof -
    have "sorted (map snd (sort_key snd xs))" by (rule sorted_sort_key)
    then show ?thesis by (simp add: sorted_map not_less)
  qed
  then show ?thesis by (simp add: sortsByModTime_def demoLib_def)
qed

lemma demo_rotatedFiles:
  "rotatedFiles demoLib demoRotator backupsWorld
     = [(''app-a.log'', 30), (''app-b.log'', 10), (''app-c.log.gz'', 40), (''app-d.log'', 20)]"
  by (simp add: rotatedFiles_def cleanupPattern_def glob_matches_def stat_entry_def
      List.map_filter_simps demoLib_def demoRotator_def backupsWorld_def filepath_Ext_def
      strings_TrimSuffix_def strings_HasSuffix_def Let_def)

lemma demo_cleanup:
  "cleanup demoLib demoRotator backupsWorld
     = (None,
        backupsWorld\<lparr>files := [(''app.log'', \<lparr>fsize = 10, modTime = 50\<rparr>),
                               (''app-a.log'', \<lparr>fsize = 1, modTime = 30\<rparr>),
                               (''app-c.log.gz'', \<lparr>fsize = 1, modTime = 40\<rparr>),
                               (''other.txt'', \<lparr>fsize = 7, modTime = 1\<rparr>)],
          trace := [OpGlob ''app-*.log*'', OpStat ''app-a.log'', OpStat ''app-b.log'',
                    OpStat ''app-c.log.gz'', OpStat ''app-d.log'',
                    OpRemove ''app-b.log'', OpRemove ''app-d.log'']\<rparr>)"
  by (simp add: cleanup_def cleanupPattern_def filepath_Glob_def glob_matches_def os_Stat_def
      os_Remove_def exists_path_def delete_path_def removeExcess.simps logEv_def
      demoLib_def demoRotator_def backupsWorld_def filepath_Ext_def
      strings_TrimSuffix_def strings_HasSuffix_def Let_def)

theorem retention_count_bound_witness:
  "sortsByModTime (sort_Slice demoLib)
   \<and> 0 \<le> maxBackups demoRotator
   \<and> int (length (rotatedFiles demoLib demoRotator backupsWorld)) > maxBackups demoRotator
   \<and> list_all (\<lambda>f. \<not> snd f < now backupsWorld - maxAge demoRotator)
         (rotatedFiles demoLib demoRotator backupsWorld)
   \<and> list_all (\<lambda>f. OpRemove (fst f) \<notin> faults backupsWorld)
         (rotatedFiles demoLib demoRotator backupsWorld)
   \<and> maxBackups demoRotator = 2
   \<and> rotatedFiles demoLib demoRotator backupsWorld
       = [(''app-a.log'', 30), (''app-b.log'', 10), (''app-c.log.gz'', 40), (''app-d.log'', 20)]
   \<and> fst (cleanup demoLib demoRotator backupsWorld) = None
   \<and> rotatedFiles demoLib demoRotator (snd (cleanup demoLib demoRotator backupsWorld))
       = [(''app-a.log'', 30), (''app-c.log.gz'', 40)]
   \<and> int (length (rotatedFiles demoLib demoRotator (snd (cleanup demoLib demoRotator backupsWorld)))) = 2"
proof -
  have h2: "0 \<le> maxBackups demoRotator" and k: "maxBackups demoRotator = 2"
    by (simp_all add: demoRotator_def)
  have h3: "int (length (rotatedFiles demoLib demoRotator backupsWorld)) > maxBackups demoRotator"
    by (simp add: demo_rotatedFiles k)
  have h4: "\<forall>f \<in> set (rotatedFiles demoLib demoRotator backupsWorld).
         \<not> snd f < now backupsWorld - maxAge demoRotator"
    by (simp add: demo_rotatedFiles) (simp add: backupsWorld_def demoRotator_def)
  have h5: "\<forall>f \<in> set (rotatedFiles demoLib demoRotator backupsWorld).
         OpRemove (fst f) \<notin> faults backupsWorld"
    by (simp add: demo_rotatedFiles) (simp add: backupsWorld_def)
  have after: "rotatedFiles demoLib demoRotator (snd (cleanup demoLib demoRotator backupsWorld))
       = [(''app-a.log'', 30), (''app-c.log.gz'', 40)]"
    by (simp add: demo_cleanup) (simp add: rotatedFiles_def cleanupPattern_def glob_matches_def
      stat_entry_def List.map_filter_simps demoLib_def demoRotator_def backupsWorld_def
      filepath_Ext_def strings_TrimSuffix_def strings_HasSuffix_def Let_def)
  from retention_count_bound [OF demo_sorts h2 h3 h4 h5 demo_cleanup]
    demo_sorts h2 h3 h4 h5 k demo_rotatedFiles after
  show ?thesis by (simp add: demo_cleanup list_all_iff)
qed


end
